theory Spec2Isabelle
  imports Complex_Main "HOL-Library.AList"
begin

section \<open>Python floats\<close>

text \<open>
  The losses, the accuracies and the running averages are Python floats, that is IEEE 754
  doubles: a finite number, one of the two infinities, or NaN. A finite double is
  modelled by the real number it denotes; the sign of a zero is not modelled (\<open>-0.0\<close> and
  \<open>0.0\<close> are equal in every comparison). Comparison is exact, and every comparison with
  NaN is false.
\<close>

datatype pyfloat = NaN | NegInf | Fin real | PosInf

fun flt :: "pyfloat \<Rightarrow> pyfloat \<Rightarrow> bool" where
  "flt NaN _ = False"
| "flt _ NaN = False"
| "flt NegInf NegInf = False"
| "flt NegInf _ = True"
| "flt (Fin a) (Fin b) = (a < b)"
| "flt (Fin a) PosInf = True"
| "flt (Fin a) NegInf = False"
| "flt PosInf _ = False"

definition fgt :: "pyfloat \<Rightarrow> pyfloat \<Rightarrow> bool" where
  "fgt a b = flt b a"

text \<open>
  Arithmetic on doubles rounds the exact result to the nearest double, a tie to the one
  with the even significand. A double has 53 significant bits: in the binade
  \<open>2^e \<le> |x| < 2^(e+1)\<close> the doubles are the multiples of \<open>2^(e-52)\<close>. Below \<open>2^-1022\<close>
  (the subnormal range) they are the multiples of \<open>2^-1074\<close>, and a result that rounds to
  \<open>2^1024\<close> or beyond is an infinity. \<open>binade x\<close> finds the exponent \<open>e\<close> by halving or
  doubling \<open>|x|\<close>, kept between -1022 and 1024.
\<close>

definition round_half_even :: "real \<Rightarrow> int" where
  "round_half_even x =
     (let f = \<lfloor>x\<rfloor>; d = x - of_int f
      in if d < 1 / 2 then f
         else if 1 / 2 < d then f + 1
         else if even f then f else f + 1)"

fun exp_up :: "nat \<Rightarrow> real \<Rightarrow> int \<Rightarrow> int" where
  "exp_up 0 x e = e"
| "exp_up (Suc n) x e = (if 2 \<le> x then exp_up n (x / 2) (e + 1) else e)"

fun exp_down :: "nat \<Rightarrow> real \<Rightarrow> int \<Rightarrow> int" where
  "exp_down 0 x e = e"
| "exp_down (Suc n) x e = (if x < 1 then exp_down n (2 * x) (e - 1) else e)"

definition binade :: "real \<Rightarrow> int" where
  "binade x = (if 1 \<le> \<bar>x\<bar> then exp_up 1024 \<bar>x\<bar> 0 else exp_down 1022 \<bar>x\<bar> 0)"

definition round_double :: "real \<Rightarrow> pyfloat" where
  "round_double x =
     (if x = 0 then Fin 0
      else
        let q = 2 powi (binade x - 52);
            r = of_int (round_half_even (x / q)) * q
        in if 2 ^ 1024 \<le> r then PosInf
           else if r \<le> - (2 ^ 1024) then NegInf
           else Fin r)"

text \<open>
  The operations \<open>*\<close>, \<open>/\<close> and \<open>+\<close> of floats. With an infinity or NaN among the operands
  they follow IEEE 754: NaN gives NaN, an infinity times zero, an infinity over an
  infinity and the sum of the two infinities are NaN, the other results are an infinity
  of the product's sign or 0. Python raises ZeroDivisionError when a float is divided by
  zero; RunningAverage divides by \<open>count + 1\<close> only, which is never zero, and \<open>fdiv\<close> has
  NaN in that place.
\<close>

definition inf_of :: "real \<Rightarrow> pyfloat" where
  "inf_of s = (if 0 < s then PosInf else if s < 0 then NegInf else NaN)"

fun fsgn :: "pyfloat \<Rightarrow> real" where
  "fsgn NaN = 0"
| "fsgn NegInf = - 1"
| "fsgn (Fin a) = sgn a"
| "fsgn PosInf = 1"

fun fmul :: "pyfloat \<Rightarrow> pyfloat \<Rightarrow> pyfloat" where
  "fmul NaN _ = NaN"
| "fmul _ NaN = NaN"
| "fmul (Fin a) (Fin b) = round_double (a * b)"
| "fmul a b = inf_of (fsgn a * fsgn b)"

fun fdiv :: "pyfloat \<Rightarrow> pyfloat \<Rightarrow> pyfloat" where
  "fdiv NaN _ = NaN"
| "fdiv _ NaN = NaN"
| "fdiv (Fin a) (Fin b) = (if b = 0 then NaN else round_double (a / b))"
| "fdiv (Fin a) _ = Fin 0"
| "fdiv a (Fin b) = inf_of (fsgn a * sgn b)"
| "fdiv _ _ = NaN"

fun fadd :: "pyfloat \<Rightarrow> pyfloat \<Rightarrow> pyfloat" where
  "fadd NaN _ = NaN"
| "fadd _ NaN = NaN"
| "fadd (Fin a) (Fin b) = round_double (a + b)"
| "fadd (Fin a) b = b"
| "fadd a (Fin b) = a"
| "fadd a b = (if a = b then a else NaN)"

text \<open>
  An int operand of a float operation is converted to the nearest double first (Python
  raises OverflowError for an int beyond the range of the doubles, which a counter that
  is incremented from 0 does not reach).
\<close>

definition float_of_nat :: "nat \<Rightarrow> pyfloat" where
  "float_of_nat n = round_double (real n)"

section \<open>Utilities of PyDenseNetBc.py: RunningAverage\<close>

text \<open>
  \<^verbatim>\<open>
  class RunningAverage():
      def __init__(self):
          self._avg = 0
          self._count = 0
      def add(self, val):
          self._avg = self._avg * self._count / (self._count + 1) + val / (self._count + 1)
          self._count += 1
      def get(self) -> float:
          return self._avg
  \<close>
  The counter starts at 0 and is only ever incremented, so it is a natural number. The
  values added are floats, and so is the average from the first \<open>add\<close> on (the
  initial \<open>0\<close> is an int, with the same value as the float). The expression is evaluated
  from left to right, one rounded operation at a time.
\<close>

record RunningAverage =
  avg :: pyfloat
  count :: nat

definition RunningAverage_init :: RunningAverage where
  "RunningAverage_init = \<lparr>avg = Fin 0, count = 0\<rparr>"

definition RunningAverage_add :: "RunningAverage \<Rightarrow> pyfloat \<Rightarrow> RunningAverage" where
  "RunningAverage_add r val =
     (let a = fadd (fdiv (fmul (avg r) (float_of_nat (count r))) (float_of_nat (count r + 1)))
                   (fdiv val (float_of_nat (count r + 1)))
      in \<lparr>avg = a, count = count r + 1\<rparr>)"

definition RunningAverage_get :: "RunningAverage \<Rightarrow> pyfloat" where
  "RunningAverage_get r = avg r"

text \<open>A sequence of \<open>add\<close> calls on one object, in order.\<close>

definition RunningAverage_add_all :: "RunningAverage \<Rightarrow> pyfloat list \<Rightarrow> RunningAverage" where
  "RunningAverage_add_all r vals = foldl RunningAverage_add r vals"

text \<open>
  The words of the specification: the arithmetic mean of the values added so far (0 when
  there is none), and a floating-point tolerance. The tolerance for \<open>n\<close> values of
  magnitude at most \<open>M\<close> is stated with the unit roundoff \<open>2^-53\<close> of the doubles and their
  least normal number \<open>2^-1022\<close>; for \<open>n\<close> far below \<open>2^53\<close> it is about \<open>4 n 2^-53 M\<close>.
\<close>

definition mean :: "real list \<Rightarrow> real" where
  "mean xs = (if xs = [] then 0 else sum_list xs / real (length xs))"

definition unit_roundoff :: real where
  "unit_roundoff = 1 / 2 ^ 53"

definition min_normal :: real where
  "min_normal = 1 / 2 ^ 1022"

definition tolerance :: "real \<Rightarrow> nat \<Rightarrow> real" where
  "tolerance M n = (M + min_normal) * ((1 + unit_roundoff) ^ (4 * n) - 1)"

section \<open>Utilities of PyDenseNetBc.py: EarlyStopCondition\<close>

text \<open>
  \<^verbatim>\<open>
  class EarlyStopCondition():
      def __init__(self, patience=5, if_max=False):
          self._patience = patience
          self._if_max = if_max
          self._last_best = float('inf') if not if_max else float('-inf')
          self._wait_count = 0

      def check(self, value) -> bool:
          if self._patience < 0: # No stop
              return False
          if (not self._if_max and value < self._last_best) or \
              (self._if_max and value > self._last_best):
              self._wait_count = 0
              self._last_best = value
          else:
              self._wait_count += 1
          if self._wait_count >= self._patience:
              return True
          else:
              return False
  \<close>
  \<open>check\<close> mutates the object; the model returns the answer and the object after the call.
\<close>

record EarlyStopCondition =
  patience :: int
  if_max :: bool
  last_best :: pyfloat
  wait_count :: int

definition EarlyStopCondition_init :: "int \<Rightarrow> bool \<Rightarrow> EarlyStopCondition" where
  "EarlyStopCondition_init p m =
     \<lparr>patience = p, if_max = m,
      last_best = (if \<not> m then PosInf else NegInf),
      wait_count = 0\<rparr>"

definition EarlyStopCondition_check ::
  "EarlyStopCondition \<Rightarrow> pyfloat \<Rightarrow> bool \<times> EarlyStopCondition" where
  "EarlyStopCondition_check c v =
     (if patience c < 0 then (False, c)
      else
        let c' = (if (\<not> if_max c \<and> flt v (last_best c)) \<or> (if_max c \<and> fgt v (last_best c))
                  then c\<lparr>wait_count := 0, last_best := v\<rparr>
                  else c\<lparr>wait_count := wait_count c + 1\<rparr>)
        in if wait_count c' \<ge> patience c' then (True, c') else (False, c'))"

text \<open>
  A sequence of \<open>check\<close> calls on one object: for every call, the answer and the object
  right after the call.
\<close>

fun check_trace :: "EarlyStopCondition \<Rightarrow> pyfloat list \<Rightarrow> (bool \<times> EarlyStopCondition) list" where
  "check_trace c [] = []"
| "check_trace c (v # vs) =
     (let r = EarlyStopCondition_check c v in r # check_trace (snd r) vs)"

text \<open>
  The words of the specification: a value improves on the best seen when it is less than
  it (minimizing) or greater than it (maximizing).
\<close>

definition improves :: "EarlyStopCondition \<Rightarrow> pyfloat \<Rightarrow> bool" where
  "improves c v = (if if_max c then flt (last_best c) v else flt v (last_best c))"

section \<open>Parameters of PyDenseNetBc: tensors, arrays, dictionaries\<close>

text \<open>
  A tensor of the net and a numpy array are a shape and the numbers in it.
  \<open>value.cpu().numpy()\<close> and \<open>torch.from_numpy(value)\<close> keep both; \<open>np.asarray(step)\<close> is
  the array of no dimension holding the integer, and \<open>int(array)\<close> converts an array of
  one element (truncating towards zero) and raises TypeError on any other.
\<close>

datatype tensor = Tensor (shape: "nat list") (data: "real list")

datatype ndarray = NdArray (nd_shape: "nat list") (nd_data: "real list")

datatype error = RuntimeError | KeyError | TypeError | IndexError | FileNotFoundError

definition numpy :: "tensor \<Rightarrow> ndarray" where
  "numpy t = NdArray (shape t) (data t)"

definition from_numpy :: "ndarray \<Rightarrow> tensor" where
  "from_numpy a = Tensor (nd_shape a) (nd_data a)"

definition asarray :: "int \<Rightarrow> ndarray" where
  "asarray n = NdArray [] [real_of_int n]"

definition int_of_array :: "ndarray \<Rightarrow> error + int" where
  "int_of_array a =
     (case nd_data a of
        [x] \<Rightarrow> Inr (if 0 \<le> x then \<lfloor>x\<rfloor> else \<lceil>x\<rceil>)
      | _ \<Rightarrow> Inl TypeError)"

text \<open>
  A Python dict is an association list with distinct keys, in insertion order:
  \<open>d[k] = v\<close> is \<open>AList.update k v d\<close> (the entry is replaced where it stands, or appended),
  \<open>d[k]\<close> is \<open>map_of d k\<close> (KeyError when it is None), \<open>len(d)\<close> is the length and
  \<open>d.items()\<close> the list itself.
\<close>

type_synonym 'v dict = "(string \<times> 'v) list"

type_synonym state_dict = "tensor dict"

text \<open>Python's \<open>s.split(sep)\<close> for a separator of one character, \<open>sep.join(parts)\<close> and
  \<open>s.startswith(p)\<close>.\<close>

fun str_split :: "char \<Rightarrow> string \<Rightarrow> string list" where
  "str_split sep [] = [[]]"
| "str_split sep (c # cs) =
     (if c = sep then [] # str_split sep cs
      else (case str_split sep cs of
              [] \<Rightarrow> [[c]]
            | p # ps \<Rightarrow> (c # p) # ps))"

fun str_join :: "string \<Rightarrow> string list \<Rightarrow> string" where
  "str_join sep [] = []"
| "str_join sep [p] = p"
| "str_join sep (p # q # ps) = p @ sep @ str_join sep (q # ps)"

definition startswith :: "string \<Rightarrow> string \<Rightarrow> bool" where
  "startswith s p = (take (length p) s = p)"

text \<open>
  \<open>net.load_state_dict(state_dict, strict)\<close> is PyTorch's, not this repository's. What it
  does, tensor by tensor of the module's own state dict (\<open>_load_from_state_dict\<close>):
  \<^verbatim>\<open>
  if key in state_dict:
      input_param = state_dict[key]
      # Backward compatibility: loading 1-dim tensor from 0.3.* to version 0.4+
      if len(param.shape) == 0 and len(input_param.shape) == 1:
          input_param = input_param[0]
      if input_param.shape != param.shape:
          error_msgs.append('size mismatch for ...')
          continue
      param.copy_(input_param)
  elif strict:
      missing_keys.append(key)
  \<close>
  and, when every tensor has been seen, with \<open>strict\<close> (the default when the argument is
  left out) the names of the given dict that the module lacks are the unexpected keys;
  unexpected and missing keys are error messages too, and any error message raises
  RuntimeError. \<open>input_param[0]\<close> of a tensor of no element raises IndexError at once.
\<close>

definition input_param :: "tensor \<Rightarrow> tensor \<Rightarrow> tensor" where
  "input_param param t' =
     (if length (shape param) = 0 \<and> length (shape t') = 1
      then Tensor [] (take 1 (data t'))
      else t')"

definition index_errors :: "state_dict \<Rightarrow> state_dict \<Rightarrow> string list" where
  "index_errors own given =
     map fst (filter (\<lambda>(k, t). case map_of given k of
                                  None \<Rightarrow> False
                                | Some t' \<Rightarrow> length (shape t) = 0 \<and> shape t' = [0]) own)"

definition missing_keys :: "state_dict \<Rightarrow> state_dict \<Rightarrow> string list" where
  "missing_keys own given = filter (\<lambda>k. map_of given k = None) (map fst own)"

definition unexpected_keys :: "state_dict \<Rightarrow> state_dict \<Rightarrow> string list" where
  "unexpected_keys own given = filter (\<lambda>k. map_of own k = None) (map fst given)"

definition size_mismatches :: "state_dict \<Rightarrow> state_dict \<Rightarrow> string list" where
  "size_mismatches own given =
     map fst (filter (\<lambda>(k, t). case map_of given k of
                                  None \<Rightarrow> False
                                | Some t' \<Rightarrow> shape (input_param t t') \<noteq> shape t) own)"

definition load_state_dict :: "state_dict \<Rightarrow> state_dict \<Rightarrow> bool \<Rightarrow> error + state_dict" where
  "load_state_dict own given strict =
     (if index_errors own given \<noteq> [] then Inl IndexError
      else if size_mismatches own given \<noteq> [] then Inl RuntimeError
      else if strict \<and> (unexpected_keys own given \<noteq> [] \<or> missing_keys own given \<noteq> [])
      then Inl RuntimeError
      else Inr (map (\<lambda>(k, t). (k, case map_of given k of
                                     None \<Rightarrow> t
                                   | Some t' \<Rightarrow> input_param t t')) own))"

section \<open>Parameters of PyDenseNetBc: the model object\<close>

text \<open>
  \<open>_Model = namedtuple('_Model', ['net', 'step'])\<close>; the net is represented by its state
  dict. The knobs are those of \<open>get_knob_config\<close>. The train params are the dict that
  \<open>json.loads\<close> returns. The methods below read \<open>self._model\<close>, so they are methods of an
  object whose model has been built (\<open>train\<close> and \<open>load_parameters\<close> build it first).
\<close>

record Model =
  net :: state_dict
  step :: int

record Knobs =
  max_trial_epochs :: int
  batch_size :: int
  drop_rate :: real
  early_stop_patience_epochs :: int
  if_share_params :: bool

datatype json = JInt int | JFloats "real list"

record PyDenseNetBc =
  knobs :: Knobs
  train_params :: "json dict"
  model :: Model

text \<open>
  \<^verbatim>\<open>
  def get_shared_parameters(self):
      (net, step) = self._model
      if_share_params = self._knobs['if_share_params']
      if not if_share_params:
          return None
      # Merge state of net and step into 1 dictionary
      params = {}
      def merge_params(prefix, state_dict):
          for (name, value) in state_dict.items():
              params['{}:{}'.format(prefix, name)] = value.cpu().numpy()
      merge_params('net', net.state_dict())
      params['step'] = np.asarray(step)
      return params
  \<close>
\<close>

definition merge_params :: "string \<Rightarrow> state_dict \<Rightarrow> ndarray dict \<Rightarrow> ndarray dict" where
  "merge_params prefix sd params =
     foldl (\<lambda>ps (name, value). AList.update (prefix @ '':'' @ name) (numpy value) ps) params sd"

definition get_shared_parameters :: "PyDenseNetBc \<Rightarrow> ndarray dict option" where
  "get_shared_parameters self =
     (if \<not> if_share_params (knobs self) then None
      else Some (AList.update ''step'' (asarray (step (model self)))
                   (merge_params ''net'' (net (model self)) [])))"

text \<open>
  \<^verbatim>\<open>
  def _load_shared_parameters(self, params):
      (net, step) = self._model
      if len(params) == 0:
          return
      utils.logger.log('Loading shared parameters...')
      def extract_params(prefix):
          return { ':'.join(name.split(':')[1:]): torch.from_numpy(value)
                  for (name, value) in params.items() if name.startswith(prefix + ':') }
      net_state_dict = extract_params('net')
      net.load_state_dict(net_state_dict, strict=False)
      step = int(params['step'])
      self._model = _Model(net, step)
  \<close>
  An exception leaves the method at once: the model returns the error.
\<close>

definition extract_params :: "ndarray dict \<Rightarrow> string \<Rightarrow> state_dict" where
  "extract_params params prefix =
     foldl (\<lambda>d (name, value).
              AList.update (str_join '':'' (tl (str_split (CHR '':'') name))) (from_numpy value) d)
       [] (filter (\<lambda>(name, value). startswith name (prefix @ '':'')) params)"

definition load_shared_parameters :: "PyDenseNetBc \<Rightarrow> ndarray dict \<Rightarrow> error + PyDenseNetBc" where
  "load_shared_parameters self params =
     (if length params = 0 then Inr self
      else
        let net_state_dict = extract_params params ''net'' in
        case load_state_dict (net (model self)) net_state_dict False of
          Inl e \<Rightarrow> Inl e
        | Inr net' \<Rightarrow>
            (case map_of params ''step'' of
               None \<Rightarrow> Inl KeyError
             | Some a \<Rightarrow>
                 (case int_of_array a of
                    Inl e \<Rightarrow> Inl e
                  | Inr step' \<Rightarrow> Inr (self\<lparr>model := \<lparr>net = net', step = step'\<rparr>\<rparr>))))"




section \<open>The training loop of PyDenseNetBc\<close>

text \<open>
  The framework that \<open>_train_model\<close> calls is a parameter. Its hidden state (the optimizer
  and the scheduler that \<open>_get_optimizer\<close> creates, the random generator) has the type
  \<open>'o\<close>; a dataset is the list of its samples and \<open>len(dataset)\<close> its length.
  \<^item> \<open>DataLoader dataset batch_size shuffle epoch\<close>: the batches that iterating the data
    loader yields in that epoch (with \<open>shuffle\<close> they differ from epoch to epoch);
  \<^item> \<open>get_optimizer\<close>: \<open>self._get_optimizer(net, trial_epochs)\<close>, from the knobs;
  \<^item> \<open>scheduler_step\<close>: \<open>scheduler.step()\<close>;
  \<^item> \<open>train_batch\<close>: the forward pass, the loss and the accuracy of a batch, then
    \<open>optimizer.zero_grad()\<close>, \<open>loss.backward()\<close>, \<open>optimizer.step()\<close>; it returns the net
    and the hidden state after them, \<open>loss.item()\<close> and \<open>acc\<close>;
  \<^item> \<open>eval_batch\<close>: the forward pass, the loss and the accuracy of a batch, no more;
  \<^item> \<open>cuda_is_available\<close>: \<open>torch.cuda.is_available()\<close>.
  What \<open>utils.logger\<close> receives is kept as a list of events.
\<close>

record ('x, 'b, 'o) torch =
  DataLoader :: "'x list \<Rightarrow> int \<Rightarrow> bool \<Rightarrow> nat \<Rightarrow> 'b list"
  get_optimizer :: "Knobs \<Rightarrow> state_dict \<Rightarrow> int \<Rightarrow> 'o"
  scheduler_step :: "'o \<Rightarrow> 'o"
  train_batch :: "state_dict \<Rightarrow> 'o \<Rightarrow> 'b \<Rightarrow> state_dict \<times> 'o \<times> pyfloat \<times> pyfloat"
  eval_batch :: "state_dict \<Rightarrow> 'o \<Rightarrow> 'b \<Rightarrow> state_dict \<times> 'o \<times> pyfloat \<times> pyfloat"
  cuda_is_available :: bool

datatype log_event =
    DefinePlot string "string list"
  | Msg string
  | RunningEpoch nat
  | TrainMetrics nat int pyfloat pyfloat
  | TrainValMetrics nat pyfloat pyfloat
  | NotImproved int

text \<open>The local variables of \<open>_train_model\<close> that change in the loop, and the log.\<close>

record 'o train_state =
  cur_net :: state_dict
  cur_step :: int
  optimizer :: 'o
  early_stop_condition :: EarlyStopCondition
  logger :: "log_event list"

definition logger_log :: "log_event \<Rightarrow> 'o train_state \<Rightarrow> 'o train_state" where
  "logger_log ev s = s\<lparr>logger := logger s @ [ev]\<rparr>"

text \<open>
  \<^verbatim>\<open>
  for (batch_images, batch_classes) in train_dataloader:
      probs = net(batch_images)
      loss = F.cross_entropy(probs, batch_classes)
      preds = probs.max(1)[1]
      acc = np.mean(preds.eq(batch_classes).cpu().numpy())
      step += 1
      optimizer.zero_grad()
      loss.backward()
      optimizer.step()
      train_loss.add(loss.item())
      train_acc.add(acc)
  \<close>
\<close>

fun train_batches ::
  "('x, 'b, 'o) torch \<Rightarrow> 'b list \<Rightarrow> 'o train_state \<Rightarrow> RunningAverage \<Rightarrow> RunningAverage
   \<Rightarrow> 'o train_state \<times> RunningAverage \<times> RunningAverage" where
  "train_batches T [] s train_loss train_acc = (s, train_loss, train_acc)"
| "train_batches T (b # bs) s train_loss train_acc =
     (case train_batch T (cur_net s) (optimizer s) b of
        (net', opt', loss, acc) \<Rightarrow>
          train_batches T bs
            (s\<lparr>cur_net := net', optimizer := opt', cur_step := cur_step s + 1\<rparr>)
            (RunningAverage_add train_loss loss) (RunningAverage_add train_acc acc))"

text \<open>
  \<^verbatim>\<open>
  for (batch_images, batch_classes) in train_val_dataloader:
      probs = net(batch_images)
      loss = F.cross_entropy(probs, batch_classes)
      preds = probs.max(1)[1]
      acc = np.mean(preds.eq(batch_classes).cpu().numpy())
      train_val_loss.add(loss.item())
      train_val_acc.add(acc)
  \<close>
\<close>

fun train_val_batches ::
  "('x, 'b, 'o) torch \<Rightarrow> 'b list \<Rightarrow> 'o train_state \<Rightarrow> RunningAverage \<Rightarrow> RunningAverage
   \<Rightarrow> 'o train_state \<times> RunningAverage \<times> RunningAverage" where
  "train_val_batches T [] s train_val_loss train_val_acc = (s, train_val_loss, train_val_acc)"
| "train_val_batches T (b # bs) s train_val_loss train_val_acc =
     (case eval_batch T (cur_net s) (optimizer s) b of
        (net', opt', loss, acc) \<Rightarrow>
          train_val_batches T bs
            (s\<lparr>cur_net := net', optimizer := opt'\<rparr>)
            (RunningAverage_add train_val_loss loss) (RunningAverage_add train_val_acc acc))"

text \<open>
  The first half of the body of the epoch loop, up to the log of the train metrics:
  \<^verbatim>\<open>
  utils.logger.log('Running epoch {}...'.format(epoch))
  scheduler.step()
  # Run through train dataset
  train_loss = RunningAverage()
  train_acc = RunningAverage()
  for (batch_images, batch_classes) in train_dataloader: ...
  utils.logger.log(epoch=epoch, step=step,
                  train_loss=train_loss.get(), train_acc=train_acc.get())
  \<close>
\<close>

definition train_pass ::
  "('x, 'b, 'o) torch \<Rightarrow> int \<Rightarrow> 'x list \<Rightarrow> nat \<Rightarrow> 'o train_state \<Rightarrow> 'o train_state" where
  "train_pass T bsize train_dataset epoch s =
     (let s1 = logger_log (RunningEpoch epoch) s;
          s2 = s1\<lparr>optimizer := scheduler_step T (optimizer s1)\<rparr>
      in case train_batches T (DataLoader T train_dataset bsize True epoch) s2
                RunningAverage_init RunningAverage_init of
           (s3, train_loss, train_acc) \<Rightarrow>
             logger_log (TrainMetrics epoch (cur_step s3)
                    (RunningAverage_get train_loss) (RunningAverage_get train_acc)) s3)"

text \<open>
  The validation pass, up to the log of its metrics; it returns the state and
  \<open>train_val_loss.get()\<close>:
  \<^verbatim>\<open>
  train_val_loss = RunningAverage()
  train_val_acc = RunningAverage()
  for (batch_images, batch_classes) in train_val_dataloader: ...
  utils.logger.log(epoch=epoch, train_val_loss=train_val_loss.get(),
                  train_val_acc=train_val_acc.get())
  \<close>
\<close>

definition train_val_pass ::
  "('x, 'b, 'o) torch \<Rightarrow> int \<Rightarrow> 'x list \<Rightarrow> nat \<Rightarrow> 'o train_state \<Rightarrow> 'o train_state \<times> pyfloat" where
  "train_val_pass T bsize train_val_dataset epoch s =
     (case train_val_batches T (DataLoader T train_val_dataset bsize False epoch) s
             RunningAverage_init RunningAverage_init of
        (s', train_val_loss, train_val_acc) \<Rightarrow>
          (logger_log (TrainValMetrics epoch (RunningAverage_get train_val_loss)
                  (RunningAverage_get train_val_acc)) s',
           RunningAverage_get train_val_loss))"

text \<open>
  The body of the epoch loop; the flag says that the body left the loop with \<open>break\<close>:
  \<^verbatim>\<open>
  for epoch in range(trial_epochs):
      ... (train pass)
      # Run through train-val dataset, if exists
      if len(train_val_dataset) > 0:
          ... (validation pass)
          # Early stop on train-val batch loss
          if early_stop_condition.check(train_val_loss.get()):
              utils.logger.log('Average train-val batch loss has not improved for {} epochs'
                               .format(early_stop_condition.patience))
              utils.logger.log('Early stopping...')
              break
  \<close>
\<close>

definition run_epoch ::
  "('x, 'b, 'o) torch \<Rightarrow> int \<Rightarrow> 'x list \<Rightarrow> 'x list \<Rightarrow> nat \<Rightarrow> 'o train_state
   \<Rightarrow> bool \<times> 'o train_state" where
  "run_epoch T bsize train_dataset train_val_dataset epoch s =
     (let s4 = train_pass T bsize train_dataset epoch s in
      if length train_val_dataset > 0 then
        (case train_val_pass T bsize train_val_dataset epoch s4 of
           (s6, val_loss) \<Rightarrow>
             (case EarlyStopCondition_check (early_stop_condition s6) val_loss of
                (stop, c) \<Rightarrow>
                  let s7 = s6\<lparr>early_stop_condition := c\<rparr> in
                  if stop
                  then (True, logger_log (Msg ''Early stopping...'') (logger_log (NotImproved (patience c)) s7))
                  else (False, s7)))
      else (False, s4))"

fun epoch_loop ::
  "('x, 'b, 'o) torch \<Rightarrow> int \<Rightarrow> 'x list \<Rightarrow> 'x list \<Rightarrow> nat list \<Rightarrow> 'o train_state
   \<Rightarrow> 'o train_state" where
  "epoch_loop T bsize train_dataset train_val_dataset [] s = s"
| "epoch_loop T bsize train_dataset train_val_dataset (epoch # rest) s =
     (case run_epoch T bsize train_dataset train_val_dataset epoch s of
        (True, s') \<Rightarrow> s'
      | (False, s') \<Rightarrow> epoch_loop T bsize train_dataset train_val_dataset rest s')"

text \<open>
  \<^verbatim>\<open>
  def _train_model(self, train_dataset, train_val_dataset):
      trial_epochs = self._get_trial_epochs()
      batch_size = self._knobs['batch_size']
      early_stop_patience = self._knobs['early_stop_patience_epochs']
      (net, step) = self._model
      # Define plots
      utils.logger.define_plot('Losses over Epoch', ['train_loss', 'train_val_loss'], x_axis='epoch')
      utils.logger.define_plot('Accuracies over Epoch', ['train_acc', 'train_val_acc'], x_axis='epoch')
      utils.logger.log('Training model...')
      train_dataloader = DataLoader(train_dataset, batch_size=batch_size, shuffle=True)
      train_val_dataloader = DataLoader(train_val_dataset, batch_size=batch_size)
      (optimizer, scheduler) = self._get_optimizer(net, trial_epochs)
      net.train()
      if torch.cuda.is_available():
          utils.logger.log('Using CUDA...')
          net = net.cuda()
      early_stop_condition = EarlyStopCondition(patience=early_stop_patience)
      for epoch in range(trial_epochs): ...
      self._model = _Model(net, step)
  \<close>
  \<open>train_model_run\<close> is the state when the loop is left, \<open>train_model\<close> the object after the
  method. \<open>range(trial_epochs)\<close> is empty for a number below 1.
\<close>

definition get_trial_epochs :: "PyDenseNetBc \<Rightarrow> int" where
  "get_trial_epochs self = max_trial_epochs (knobs self)"

definition train_model_start :: "('x, 'b, 'o) torch \<Rightarrow> PyDenseNetBc \<Rightarrow> 'o train_state" where
  "train_model_start T self =
     (let lg = [DefinePlot ''Losses over Epoch'' [''train_loss'', ''train_val_loss''],
                DefinePlot ''Accuracies over Epoch'' [''train_acc'', ''train_val_acc''],
                Msg ''Training model...'']
      in \<lparr>cur_net = net (model self), cur_step = step (model self),
          optimizer = get_optimizer T (knobs self) (net (model self)) (get_trial_epochs self),
          early_stop_condition =
            EarlyStopCondition_init (early_stop_patience_epochs (knobs self)) False,
          logger = (if cuda_is_available T then lg @ [Msg ''Using CUDA...''] else lg)\<rparr>)"

definition train_model_run ::
  "('x, 'b, 'o) torch \<Rightarrow> PyDenseNetBc \<Rightarrow> 'x list \<Rightarrow> 'x list \<Rightarrow> 'o train_state" where
  "train_model_run T self train_dataset train_val_dataset =
     epoch_loop T (batch_size (knobs self)) train_dataset train_val_dataset
       [0..<nat (get_trial_epochs self)] (train_model_start T self)"

definition train_model ::
  "('x, 'b, 'o) torch \<Rightarrow> PyDenseNetBc \<Rightarrow> 'x list \<Rightarrow> 'x list \<Rightarrow> PyDenseNetBc" where
  "train_model T self train_dataset train_val_dataset =
     (let s = train_model_run T self train_dataset train_val_dataset
      in self\<lparr>model := \<lparr>net = cur_net s, step = cur_step s\<rparr>\<rparr>)"

text \<open>What the log shows of a run: the epochs begun and the epochs validated, in order.\<close>

fun epochs_run :: "log_event list \<Rightarrow> nat list" where
  "epochs_run [] = []"
| "epochs_run (RunningEpoch e # evs) = e # epochs_run evs"
| "epochs_run (_ # evs) = epochs_run evs"

fun epochs_validated :: "log_event list \<Rightarrow> nat list" where
  "epochs_validated [] = []"
| "epochs_validated (TrainValMetrics e _ _ # evs) = e # epochs_validated evs"
| "epochs_validated (_ # evs) = epochs_validated evs"

section \<open>Example objects\<close>

text \<open>Concrete objects on which the theorems below are instantiated.\<close>

definition example_knobs :: Knobs where
  "example_knobs = \<lparr>max_trial_epochs = 5, batch_size = 2, drop_rate = 0,
                     early_stop_patience_epochs = 1, if_share_params = True\<rparr>"

definition example_self :: PyDenseNetBc where
  "example_self = \<lparr>knobs = example_knobs, train_params = [(''K'', JInt 10)],
     model = \<lparr>net = [(''w'', Tensor [2] [1, 2]), (''b:0'', Tensor [] [3])], step = 7\<rparr>\<rparr>"

definition example_other :: PyDenseNetBc where
  "example_other = \<lparr>knobs = example_knobs, train_params = [(''K'', JInt 10)],
     model = \<lparr>net = [(''w'', Tensor [2] [0, 0]), (''b:0'', Tensor [] [0])], step = 0\<rparr>\<rparr>"

definition example_torch :: "(pyfloat, pyfloat, unit) torch" where
  "example_torch =
     \<lparr>DataLoader = (\<lambda>dataset bsize shuffle epoch. dataset),
      get_optimizer = (\<lambda>k n t. ()),
      scheduler_step = (\<lambda>opt. opt),
      train_batch = (\<lambda>n opt b. (n, opt, b, Fin 1)),
      eval_batch = (\<lambda>n opt b. (n, opt, b, Fin 1)),
      cuda_is_available = False\<rparr>"

definition example_state :: "unit train_state" where
  "example_state =
     \<lparr>cur_net = [], cur_step = 1, optimizer = (),
      early_stop_condition = \<lparr>patience = 1, if_max = False, last_best = Fin 2, wait_count = 0\<rparr>,
      logger = []\<rparr>"

section \<open>Properties of the float operations\<close>

lemma round_half_even_err: "\<bar>of_int (round_half_even x) - x\<bar> \<le> 1 / 2"
proof -
  have "of_int \<lfloor>x\<rfloor> \<le> x" "x < of_int \<lfloor>x\<rfloor> + 1"
    by linarith+
  then show ?thesis
    by (auto simp: round_half_even_def Let_def)
qed

lemma round_half_even_int: "round_half_even (of_int m) = m"
  by (simp add: round_half_even_def)

lemma pow2_succ: "2 powi (k + 1) = 2 powi k * (2::real)"
  using power_int_add [of "2::real" k 1] by simp

lemma exp_up_bound: "1 \<le> x \<Longrightarrow> e \<le> exp_up n x e \<and> 2 powi (exp_up n x e - e) \<le> x"
proof (induction n arbitrary: x e)
  case 0
  then show ?case by simp
next
  case (Suc n)
  show ?case
  proof (cases "2 \<le> x")
    case True
    then have "1 \<le> x / 2" by simp
    from Suc.IH [OF this, of "e + 1"]
    have a: "e + 1 \<le> exp_up n (x / 2) (e + 1)"
      and b: "2 powi (exp_up n (x / 2) (e + 1) - (e + 1)) \<le> x / 2"
      by simp_all
    have "exp_up n (x / 2) (e + 1) - e = exp_up n (x / 2) (e + 1) - (e + 1) + 1"
      by simp
    then have "2 powi (exp_up n (x / 2) (e + 1) - e) = 2 powi (exp_up n (x / 2) (e + 1) - (e + 1)) * (2::real)"
      by (simp only: pow2_succ)
    with a b True show ?thesis by simp
  next
    case False
    with Suc.prems show ?thesis by simp
  qed
qed

lemma exp_down_bound:
  "0 < x \<Longrightarrow> e - int n \<le> exp_down n x e \<and> exp_down n x e \<le> e
     \<and> (exp_down n x e = e - int n \<or> 2 powi (exp_down n x e - e) \<le> x)"
proof (induction n arbitrary: x e)
  case 0
  then show ?case by simp
next
  case (Suc n)
  show ?case
  proof (cases "x < 1")
    case True
    have "0 < 2 * x" using Suc.prems by simp
    from Suc.IH [OF this, of "e - 1"]
    have a: "e - 1 - int n \<le> exp_down n (2 * x) (e - 1)" "exp_down n (2 * x) (e - 1) \<le> e - 1"
      and b: "exp_down n (2 * x) (e - 1) = e - 1 - int n
              \<or> 2 powi (exp_down n (2 * x) (e - 1) - (e - 1)) \<le> 2 * x"
      by simp_all
    have "exp_down n (2 * x) (e - 1) - (e - 1) = exp_down n (2 * x) (e - 1) - e + 1"
      by simp
    then have "2 powi (exp_down n (2 * x) (e - 1) - (e - 1)) = 2 powi (exp_down n (2 * x) (e - 1) - e) * (2::real)"
      by (simp only: pow2_succ)
    with a b True show ?thesis by auto
  next
    case False
    then show ?thesis by simp
  qed
qed

lemma binade_bound:
  assumes "x \<noteq> 0"
  shows "- 1022 \<le> binade x" and "binade x = - 1022 \<or> 2 powi (binade x) \<le> \<bar>x\<bar>"
proof -
  have pos: "0 < \<bar>x\<bar>" using assms by simp
  show "- 1022 \<le> binade x"
    using exp_up_bound [of "\<bar>x\<bar>" 0 1024] exp_down_bound [OF pos, of 0 1022]
    by (auto simp: binade_def)
  show "binade x = - 1022 \<or> 2 powi (binade x) \<le> \<bar>x\<bar>"
    using exp_up_bound [of "\<bar>x\<bar>" 0 1024] exp_down_bound [OF pos, of 0 1022]
    by (auto simp: binade_def)
qed

lemma round_double_err:
  assumes "round_double x = Fin r"
  shows "\<bar>r - x\<bar> \<le> unit_roundoff * (\<bar>x\<bar> + min_normal)"
proof (cases "x = 0")
  case True
  with assms show ?thesis by (simp add: round_double_def unit_roundoff_def min_normal_def)
next
  case False
  define b where "b = binade x"
  define q :: real where "q = 2 powi (b - 52)"
  have qpos: "0 < q" by (simp add: q_def)
  have r: "r = of_int (round_half_even (x / q)) * q"
    using assms False by (simp add: round_double_def Let_def q_def b_def split: if_splits)
  have "r - x = (of_int (round_half_even (x / q)) - x / q) * q"
    using qpos by (simp add: r left_diff_distrib)
  then have "\<bar>r - x\<bar> = \<bar>of_int (round_half_even (x / q)) - x / q\<bar> * q"
    using qpos by (simp add: abs_mult)
  also have "\<dots> \<le> 1 / 2 * q"
    using round_half_even_err [of "x / q"] qpos by (intro mult_right_mono) simp_all
  also have "\<dots> = unit_roundoff * 2 powi b"
    using power_int_add [of "2::real" b "- 52"] by (simp add: q_def unit_roundoff_def)
  also have "\<dots> \<le> unit_roundoff * (\<bar>x\<bar> + min_normal)"
  proof -
    have "2 powi b \<le> \<bar>x\<bar> + min_normal"
    proof (cases "b = - 1022")
      case True
      then have "(2::real) powi b = min_normal"
        by (simp add: min_normal_def power_int_minus inverse_eq_divide)
      then show ?thesis by simp
    next
      case False
      then have "2 powi b \<le> \<bar>x\<bar>"
        using binade_bound(2) [OF \<open>x \<noteq> 0\<close>] by (simp add: b_def)
      moreover have "0 \<le> min_normal" by (simp add: min_normal_def)
      ultimately show ?thesis by simp
    qed
    then show ?thesis
      by (intro mult_left_mono) (simp_all add: unit_roundoff_def)
  qed
  finally show ?thesis .
qed

lemma step_error:
  fixes a m v p x1 x2 a' u H M E :: real and k :: nat
  assumes u: "0 \<le> u" and H: "0 \<le> H" and m: "\<bar>m\<bar> \<le> M" and v: "\<bar>v\<bar> \<le> M"
    and E: "\<bar>a - m\<bar> \<le> E"
    and p: "\<bar>p - a * real k\<bar> \<le> u * (\<bar>a * real k\<bar> + H)"
    and x1: "\<bar>x1 - p / real (k + 1)\<bar> \<le> u * (\<bar>p / real (k + 1)\<bar> + H)"
    and x2: "\<bar>x2 - v / real (k + 1)\<bar> \<le> u * (\<bar>v / real (k + 1)\<bar> + H)"
    and a': "\<bar>a' - (x1 + x2)\<bar> \<le> u * (\<bar>x1 + x2\<bar> + H)"
  shows "\<bar>a' - (m * real k + v) / real (k + 1)\<bar>
         \<le> ((1 + u) ^ 4 - 1) * (M + H) + (1 + u) ^ 4 * E"
proof -
  define d where "d = real (k + 1)"
  define G where "G = M + E + H"
  define y where "y = a * real k / d"
  define z where "z = v / d"
  have d1: "1 \<le> d" and dpos: "0 < d" and kd: "real k \<le> d" and kd1: "real k + 1 = d"
    by (simp_all add: d_def)
  have E0: "0 \<le> E" using E by linarith
  have M0: "0 \<le> M" using m by linarith
  have G0: "0 \<le> G" using E0 M0 H by (simp add: G_def)
  have aa: "\<bar>a\<bar> \<le> M + E" using m E by linarith
  have frac: "real k / d \<le> 1" "0 \<le> real k / d"
    using kd dpos by simp_all
  have yb: "\<bar>y\<bar> \<le> \<bar>a\<bar>"
  proof -
    have "\<bar>y\<bar> = \<bar>a\<bar> * (real k / d)"
      using dpos by (simp add: y_def abs_mult)
    also have "\<dots> \<le> \<bar>a\<bar> * 1"
      using frac by (intro mult_left_mono) simp_all
    finally show ?thesis by simp
  qed
  have zb: "\<bar>z\<bar> \<le> \<bar>v\<bar>"
  proof -
    have "\<bar>z\<bar> = \<bar>v\<bar> / d" using dpos by (simp add: z_def)
    also have "\<dots> \<le> \<bar>v\<bar> / 1"
      using d1 by (intro divide_left_mono) simp_all
    finally show ?thesis by simp
  qed
  \<comment> \<open>the product, divided\<close>
  have pd: "\<bar>p / d - y\<bar> \<le> u * G"
  proof -
    have "p / d - y = (p - a * real k) / d"
      by (simp add: y_def diff_divide_distrib)
    then have "\<bar>p / d - y\<bar> = \<bar>p - a * real k\<bar> / d"
      using dpos by simp
    also have "\<dots> \<le> u * (\<bar>a * real k\<bar> + H) / d"
      using p dpos by (intro divide_right_mono) simp_all
    also have "\<dots> = u * (\<bar>y\<bar> + H / d)"
    proof -
      have "\<bar>y\<bar> = \<bar>a * real k\<bar> / d"
        using dpos by (simp add: y_def)
      moreover have "u * (\<bar>a * real k\<bar> + H) / d = u * (\<bar>a * real k\<bar> / d + H / d)"
        using dpos by (simp add: field_simps)
      ultimately show ?thesis by simp
    qed
    also have "\<dots> \<le> u * G"
    proof (intro mult_left_mono u)
      have "H / d \<le> H / 1" using d1 H by (intro divide_left_mono) simp_all
      then show "\<bar>y\<bar> + H / d \<le> G"
        using yb aa by (simp add: G_def)
    qed
    finally show ?thesis .
  qed
  have yG: "\<bar>y\<bar> + H \<le> G"
    using yb aa by (simp add: G_def)
  have pdH: "\<bar>p / d\<bar> + H \<le> G + u * G"
    using pd yG by linarith
  have x1b: "\<bar>x1 - y\<bar> \<le> u * (G + u * G) + u * G"
  proof -
    have "\<bar>x1 - p / d\<bar> \<le> u * (\<bar>p / d\<bar> + H)"
      using x1 by (simp add: d_def)
    also have "\<dots> \<le> u * (G + u * G)"
      using pdH by (intro mult_left_mono u)
    finally show ?thesis using pd by linarith
  qed
  have x2b: "\<bar>x2 - z\<bar> \<le> u * G"
  proof -
    have "\<bar>x2 - z\<bar> \<le> u * (\<bar>z\<bar> + H)"
      using x2 by (simp add: d_def z_def)
    also have "\<dots> \<le> u * G"
      using zb v E0 by (intro mult_left_mono u) (simp add: G_def)
    finally show ?thesis .
  qed
  have tb: "\<bar>y + z\<bar> \<le> M + E"
  proof -
    have "y + z = (a * real k + v) / d"
      by (simp add: y_def z_def add_divide_distrib)
    then have "\<bar>y + z\<bar> = \<bar>a * real k + v\<bar> / d"
      using dpos by simp
    also have "\<dots> \<le> ((M + E) * real k + (M + E)) / d"
    proof (intro divide_right_mono)
      have "\<bar>a * real k\<bar> \<le> (M + E) * real k"
        using aa by (simp add: abs_mult mult_right_mono)
      then show "\<bar>a * real k + v\<bar> \<le> (M + E) * real k + (M + E)"
        using v E0 by linarith
      show "0 \<le> d" using dpos by simp
    qed
    also have "\<dots> = M + E"
    proof -
      have "(M + E) * real k + (M + E) = (M + E) * d"
        unfolding d_def by (simp add: algebra_simps)
      then show ?thesis using dpos by simp
    qed
    finally show ?thesis .
  qed
  have sb: "\<bar>(x1 + x2) - (y + z)\<bar> \<le> u * (G + u * G) + 2 * (u * G)"
    using x1b x2b by linarith
  have tG: "\<bar>y + z\<bar> + H \<le> G"
    using tb by (simp add: G_def)
  have sH: "\<bar>x1 + x2\<bar> + H \<le> G + (u * (G + u * G) + 2 * (u * G))"
    using sb tG by linarith
  have ab: "\<bar>a' - (y + z)\<bar> \<le> u * (G + (u * (G + u * G) + 2 * (u * G))) + (u * (G + u * G) + 2 * (u * G))"
  proof -
    have "\<bar>a' - (x1 + x2)\<bar> \<le> u * (G + (u * (G + u * G) + 2 * (u * G)))"
      using a' sH by (meson mult_left_mono order_trans u)
    then show ?thesis using sb by linarith
  qed
  have mb: "\<bar>(y + z) - (m * real k + v) / d\<bar> \<le> E"
  proof -
    have "(y + z) - (m * real k + v) / d = (a - m) * (real k / d)"
      using dpos by (simp add: y_def z_def field_simps)
    then have "\<bar>(y + z) - (m * real k + v) / d\<bar> = \<bar>a - m\<bar> * (real k / d)"
      using frac dpos by (simp add: abs_mult)
    also have "\<dots> \<le> E * 1"
      using E frac E0 by (intro mult_mono) simp_all
    finally show ?thesis by simp
  qed
  have poly: "u * (G + (u * (G + u * G) + 2 * (u * G))) + (u * (G + u * G) + 2 * (u * G))
              \<le> ((1 + u) ^ 4 - 1) * G"
  proof -
    have "((1 + u) ^ 4 - 1) * G
          - (u * (G + (u * (G + u * G) + 2 * (u * G))) + (u * (G + u * G) + 2 * (u * G)))
          = (2 * u ^ 2 + 3 * u ^ 3 + u ^ 4) * G"
      by (simp add: power4_eq_xxxx power3_eq_cube power2_eq_square algebra_simps)
    moreover have "0 \<le> (2 * u ^ 2 + 3 * u ^ 3 + u ^ 4) * G"
      using u G0 by (intro mult_nonneg_nonneg add_nonneg_nonneg) simp_all
    ultimately show ?thesis by linarith
  qed
  have "\<bar>a' - (m * real k + v) / d\<bar> \<le> ((1 + u) ^ 4 - 1) * G + E"
    using ab mb poly by linarith
  also have "\<dots> = ((1 + u) ^ 4 - 1) * (M + H) + (1 + u) ^ 4 * E"
    by (simp add: G_def algebra_simps)
  finally show ?thesis by (simp add: d_def)
qed

lemma round_double_exact:
  assumes x: "x = of_int m * 2 powi k" and m: "\<bar>m\<bar> < 2 ^ 53" and k: "- 1074 \<le> k"
    and fin: "\<bar>x\<bar> < 2 ^ 1024"
  shows "round_double x = Fin x"
proof (cases "x = 0")
  case True
  then show ?thesis by (simp add: round_double_def)
next
  case False
  define b where "b = binade x"
  have bk: "b \<le> k + 52"
  proof (cases "b = - 1022")
    case True
    with k show ?thesis by simp
  next
    case False
    then have le: "2 powi b \<le> \<bar>x\<bar>"
      using binade_bound(2) [OF \<open>x \<noteq> 0\<close>] by (simp add: b_def)
    have "\<bar>x\<bar> = \<bar>of_int m\<bar> * 2 powi k"
      by (simp add: x abs_mult)
    also have "\<dots> < 2 ^ 53 * 2 powi k"
    proof (intro mult_strict_right_mono)
      have "real_of_int \<bar>m\<bar> < real_of_int (2 ^ 53)"
        using m by (simp only: of_int_less_iff)
      then show "\<bar>real_of_int m\<bar> < 2 ^ 53" by simp
      show "(0::real) < 2 powi k" by simp
    qed
    also have "\<dots> = 2 powi (k + 53)"
      using power_int_add [of "2::real" k 53] by simp
    finally have "(2::real) powi b < 2 powi (k + 53)"
      using le by simp
    then have "\<not> k + 53 \<le> b"
      using power_int_increasing [of "k + 53" b "2::real"] by auto
    then show ?thesis by simp
  qed
  define j where "j = nat (k - (b - 52))"
  define q :: real where "q = 2 powi (b - 52)"
  have qpos: "0 < q" by (simp add: q_def)
  have "(2::real) powi k = 2 powi ((k - (b - 52)) + (b - 52))"
    by simp
  also have "\<dots> = 2 powi (k - (b - 52)) * q"
    unfolding q_def by (rule power_int_add) simp
  also have "2 powi (k - (b - 52)) = (2::real) ^ j"
    using bk by (simp add: j_def power_int_def)
  finally have pk: "(2::real) powi k = 2 ^ j * q" .
  have xq: "x / q = of_int (m * 2 ^ j)"
    using qpos by (simp add: x pk)
  have "of_int (round_half_even (x / q)) * q = x"
    using qpos by (simp only: xq round_half_even_int) (simp add: x pk)
  moreover have "\<not> 2 ^ 1024 \<le> x" "\<not> x \<le> - (2 ^ 1024)"
    using fin by linarith+
  ultimately show ?thesis
    using False by (simp add: round_double_def Let_def b_def [symmetric] q_def [symmetric])
qed

lemma float_of_nat_exact: "n < 2 ^ 53 \<Longrightarrow> float_of_nat n = Fin (real n)"
proof -
  assume n: "n < 2 ^ 53"
  have i: "int n < 2 ^ 53"
  proof -
    have "int n < int (2 ^ 53)" using n by (simp only: of_nat_less_iff)
    then show ?thesis by (simp only: of_nat_power of_nat_numeral)
  qed
  have r: "real n < 2 ^ 53"
  proof -
    have "real n < real (2 ^ 53)" using n by (simp only: of_nat_less_iff)
    then show ?thesis by (simp only: of_nat_power of_nat_numeral)
  qed
  have big: "(2::real) ^ 53 < 2 ^ 1024"
    by (rule power_strict_increasing) simp_all
  have "round_double (real n) = Fin (real n)"
  proof (rule round_double_exact [where m = "int n" and k = 0])
    show "real n = real_of_int (int n) * 2 powi 0" by simp
    show "\<bar>int n\<bar> < 2 ^ 53" using i by simp
    show "- 1074 \<le> (0::int)" by simp
    show "\<bar>real n\<bar> < 2 ^ 1024" using r big by simp
  qed
  then show ?thesis by (simp add: float_of_nat_def)
qed

lemma fadd_Fin:
  "fadd a b = Fin r \<Longrightarrow> \<exists>x y. a = Fin x \<and> b = Fin y \<and> round_double (x + y) = Fin r"
  by (cases a; cases b) (auto split: if_splits)

lemma fmul_Fin:
  "fmul a b = Fin r \<Longrightarrow> \<exists>x y. a = Fin x \<and> b = Fin y \<and> round_double (x * y) = Fin r"
  by (cases a; cases b) (auto simp: inf_of_def split: if_splits)

lemma fdiv_Fin:
  "fdiv a (Fin d) = Fin r \<Longrightarrow> d \<noteq> 0 \<Longrightarrow> \<exists>x. a = Fin x \<and> round_double (x / d) = Fin r"
  by (cases a) (auto simp: inf_of_def sgn_if split: if_splits)

text \<open>The divisor \<open>count + 1\<close> is never the float zero.\<close>

lemma float_of_nat_Suc_nonzero: "float_of_nat (Suc n) \<noteq> Fin 0"
proof -
  define x where "x = real (Suc n)"
  define q :: real where "q = 2 powi (binade x - 52)"
  have x1: "1 \<le> x" and x0: "x \<noteq> 0"
    by (simp_all add: x_def)
  have qpos: "0 < q" by (simp add: q_def)
  have "q \<le> x"
  proof (cases "binade x = - 1022")
    case True
    have "(2::real) powi (- 1022 - 52) \<le> 2 powi 0"
      by (rule power_int_increasing) simp_all
    then show ?thesis
      using x1 by (simp add: q_def True)
  next
    case False
    then have "2 powi (binade x) \<le> \<bar>x\<bar>"
      using binade_bound(2) [OF x0] by simp
    moreover have "(2::real) powi (binade x - 52) \<le> 2 powi (binade x)"
      by (rule power_int_increasing) simp_all
    ultimately show ?thesis
      using x1 by (simp add: q_def)
  qed
  then have "1 \<le> x / q"
    using qpos by simp
  then have "1 / 2 \<le> real_of_int (round_half_even (x / q))"
    using round_half_even_err [of "x / q"] by linarith
  then have "0 < real_of_int (round_half_even (x / q)) * q"
    using qpos by (intro mult_pos_pos) simp_all
  then have "round_double x \<noteq> Fin 0"
    using x0 by (auto simp: round_double_def Let_def q_def [symmetric])
  then show ?thesis
    by (simp add: float_of_nat_def x_def)
qed

section \<open>Properties of RunningAverage\<close>

lemma add_all_snoc:
  "RunningAverage_add_all r (vals @ [v]) = RunningAverage_add (RunningAverage_add_all r vals) v"
  by (simp add: RunningAverage_add_all_def)

lemma add_all_count:
  "count (RunningAverage_add_all RunningAverage_init vals) = length vals"
  by (induction vals rule: rev_induct)
    (simp_all add: add_all_snoc RunningAverage_add_def Let_def RunningAverage_add_all_def
      RunningAverage_init_def)

lemma add_finite_step:
  assumes fin: "avg (RunningAverage_add r (Fin v)) = Fin a'" and k: "count r + 1 < 2 ^ 53"
  shows "\<exists>a p x1 x2. avg r = Fin a
     \<and> round_double (a * real (count r)) = Fin p
     \<and> round_double (p / real (count r + 1)) = Fin x1
     \<and> round_double (v / real (count r + 1)) = Fin x2
     \<and> round_double (x1 + x2) = Fin a'"
proof -
  have c: "float_of_nat (count r) = Fin (real (count r))"
    using k by (intro float_of_nat_exact) simp
  have c1: "float_of_nat (count r + 1) = Fin (real (count r + 1))"
    using k by (intro float_of_nat_exact)
  have nz: "real (count r + 1) \<noteq> 0" by simp
  from fin have "fadd (fdiv (fmul (avg r) (Fin (real (count r)))) (Fin (real (count r + 1))))
                      (fdiv (Fin v) (Fin (real (count r + 1)))) = Fin a'"
    by (simp only: RunningAverage_add_def Let_def c c1 RunningAverage.select_convs)
  then obtain x1 x2 where
    x1: "fdiv (fmul (avg r) (Fin (real (count r)))) (Fin (real (count r + 1))) = Fin x1"
    and x2: "fdiv (Fin v) (Fin (real (count r + 1))) = Fin x2"
    and s: "round_double (x1 + x2) = Fin a'"
    using fadd_Fin by blast
  from fdiv_Fin [OF x1 nz] obtain p where
    p: "fmul (avg r) (Fin (real (count r))) = Fin p"
    and x1': "round_double (p / real (count r + 1)) = Fin x1"
    by blast
  from fmul_Fin [OF p] obtain a where
    a: "avg r = Fin a" and p': "round_double (a * real (count r)) = Fin p"
    by auto
  have x2': "round_double (v / real (count r + 1)) = Fin x2"
    using x2 nz by (simp del: of_nat_add of_nat_Suc)
  show ?thesis
    using a p' x1' x2' s by blast
qed

lemma mean_snoc:
  "mean (xs @ [v]) = (mean xs * real (length xs) + v) / real (length xs + 1)"
  by (simp add: mean_def)

lemma sum_list_abs_bound:
  "\<forall>x\<in>set xs. \<bar>x\<bar> \<le> M \<Longrightarrow> \<bar>sum_list xs\<bar> \<le> M * real (length xs)"
proof (induction xs)
  case Nil
  show ?case by simp
next
  case (Cons x xs)
  then have "\<bar>sum_list xs\<bar> \<le> M * real (length xs)" and "\<bar>x\<bar> \<le> M"
    by simp_all
  then show ?case
    by (simp add: algebra_simps)
qed

lemma mean_bound:
  assumes "\<forall>x\<in>set xs. \<bar>x\<bar> \<le> M" and "0 \<le> M"
  shows "\<bar>mean xs\<bar> \<le> M"
proof (cases "xs = []")
  case True
  with assms(2) show ?thesis by (simp add: mean_def)
next
  case False
  then have pos: "0 < real (length xs)" by simp
  have "\<bar>mean xs\<bar> = \<bar>sum_list xs\<bar> / real (length xs)"
    using False by (simp add: mean_def)
  also have "\<dots> \<le> M * real (length xs) / real (length xs)"
    using sum_list_abs_bound [OF assms(1)] pos by (intro divide_right_mono) simp_all
  also have "\<dots> = M" using pos by simp
  finally show ?thesis .
qed

lemma tolerance_Suc:
  "tolerance M (Suc k) =
     ((1 + unit_roundoff) ^ 4 - 1) * (M + min_normal) + (1 + unit_roundoff) ^ 4 * tolerance M k"
proof -
  have "(1 + unit_roundoff) ^ (4 * Suc k) = (1 + unit_roundoff) ^ 4 * (1 + unit_roundoff) ^ (4 * k)"
    by (simp add: power_add [symmetric])
  then show ?thesis
    by (simp add: tolerance_def algebra_simps)
qed

lemma running_average_tolerance:
  "length xs < 2 ^ 53 \<Longrightarrow> \<forall>x\<in>set xs. \<bar>x\<bar> \<le> M \<Longrightarrow>
   avg (RunningAverage_add_all RunningAverage_init (map Fin xs)) = Fin a \<Longrightarrow>
   \<bar>a - mean xs\<bar> \<le> tolerance M (length xs)"
proof (induction xs arbitrary: a rule: rev_induct)
  case Nil
  then show ?case
    by (simp add: RunningAverage_add_all_def RunningAverage_init_def mean_def tolerance_def)
next
  case (snoc v xs)
  let ?r = "RunningAverage_add_all RunningAverage_init (map Fin xs)"
  define k where "k = length xs"
  have cnt: "count ?r = k"
    by (simp add: add_all_count k_def)
  have k53: "count ?r + 1 < 2 ^ 53"
    using snoc.prems(1) by (simp add: cnt k_def)
  have fin: "avg (RunningAverage_add ?r (Fin v)) = Fin a"
    using snoc.prems(3) by (simp add: add_all_snoc)
  from add_finite_step [OF fin k53] obtain a0 p x1 x2 where
    a0: "avg ?r = Fin a0"
    and p: "round_double (a0 * real k) = Fin p"
    and x1: "round_double (p / real (k + 1)) = Fin x1"
    and x2: "round_double (v / real (k + 1)) = Fin x2"
    and s: "round_double (x1 + x2) = Fin a"
    unfolding cnt by blast
  have bound: "\<forall>x\<in>set xs. \<bar>x\<bar> \<le> M" and vM: "\<bar>v\<bar> \<le> M"
    using snoc.prems(2) by simp_all
  have M0: "0 \<le> M" using vM by linarith
  have ih: "\<bar>a0 - mean xs\<bar> \<le> tolerance M k"
    unfolding k_def using snoc.prems(1) bound a0 by (intro snoc.IH) simp_all
  have "\<bar>a - (mean xs * real k + v) / real (k + 1)\<bar>
        \<le> ((1 + unit_roundoff) ^ 4 - 1) * (M + min_normal) + (1 + unit_roundoff) ^ 4 * tolerance M k"
  proof (rule step_error [where a = a0 and p = p and ?x1.0 = x1 and ?x2.0 = x2])
    show "0 \<le> unit_roundoff" by (simp add: unit_roundoff_def)
    show "0 \<le> min_normal" by (simp add: min_normal_def)
    show "\<bar>mean xs\<bar> \<le> M" by (rule mean_bound [OF bound M0])
    show "\<bar>v\<bar> \<le> M" by (rule vM)
    show "\<bar>a0 - mean xs\<bar> \<le> tolerance M k" by (rule ih)
    show "\<bar>p - a0 * real k\<bar> \<le> unit_roundoff * (\<bar>a0 * real k\<bar> + min_normal)"
      by (rule round_double_err [OF p])
    show "\<bar>x1 - p / real (k + 1)\<bar> \<le> unit_roundoff * (\<bar>p / real (k + 1)\<bar> + min_normal)"
      by (rule round_double_err [OF x1])
    show "\<bar>x2 - v / real (k + 1)\<bar> \<le> unit_roundoff * (\<bar>v / real (k + 1)\<bar> + min_normal)"
      by (rule round_double_err [OF x2])
    show "\<bar>a - (x1 + x2)\<bar> \<le> unit_roundoff * (\<bar>x1 + x2\<bar> + min_normal)"
      by (rule round_double_err [OF s])
  qed
  then show ?case
    by (simp only: mean_snoc k_def [symmetric] tolerance_Suc length_append list.size
        add_0 Suc_eq_plus1 [symmetric] plus_1_eq_Suc add_Suc_right add_0_right One_nat_def)
qed

lemma exp_up_numeral:
  "exp_up (numeral n) x e = (if 2 \<le> x then exp_up (pred_numeral n) (x / 2) (e + 1) else e)"
  by (simp add: numeral_eq_Suc)

lemma exp_down_numeral:
  "exp_down (numeral n) x e = (if x < 1 then exp_down (pred_numeral n) (2 * x) (e - 1) else e)"
  by (simp add: numeral_eq_Suc)

lemmas round_double_eval =
  round_double_def binade_def exp_up_numeral exp_down_numeral round_half_even_def Let_def

lemma example_rounded_average:
  "RunningAverage_add_all RunningAverage_init [Fin 0, Fin 3, Fin 4, Fin 1]
   = \<lparr>avg = Fin (9007199254740991 / 4503599627370496), count = 4\<rparr>"
  by (simp add: RunningAverage_add_all_def RunningAverage_add_def RunningAverage_init_def
      float_of_nat_def round_double_eval)

lemma add_formula:
  "RunningAverage_add r val =
     \<lparr>avg = fadd (fdiv (fmul (avg r) (float_of_nat (count r))) (float_of_nat (count r + 1)))
                  (fdiv val (float_of_nat (count r + 1))),
      count = count r + 1\<rparr>"
  by (simp add: RunningAverage_add_def)

text \<open>
  Claim C1, as stated, fails: after \<open>add(0)\<close>, \<open>add(3)\<close>, \<open>add(4)\<close>, \<open>add(1)\<close> the stored
  average is \<open>9007199254740991 / 2^52\<close> (printed \<open>1.9999999999999998\<close>), not the arithmetic
  mean 2: \<open>4 / 3\<close> and the sum \<open>1 + 4 / 3\<close> are rounded.
\<close>

theorem RunningAverage_mean_not_exact:
  "RunningAverage_get (RunningAverage_add_all RunningAverage_init [Fin 0, Fin 3, Fin 4, Fin 1])
     = Fin (9007199254740991 / 4503599627370496)
   \<and> mean [0, 3, 4, 1] = 2
   \<and> Fin (9007199254740991 / 4503599627370496) \<noteq> Fin (mean [0, 3, 4, 1])"
  by (simp add: example_rounded_average RunningAverage_get_def mean_def)

text \<open>
  Claim C1, amended. Each \<open>add\<close> call replaces the stored average by
  \<open>avg * count / (count + 1) + value / (count + 1)\<close>, every operation rounded to the nearest
  double, and then increments the count by one; a sequence of calls is the calls one after
  the other, and the count is the number of values added. \<open>get\<close> returns the stored
  average: 0 when no value has been added and, after \<open>n\<close> finite values of magnitude at
  most \<open>M\<close>, \<open>n\<close> below \<open>2^53\<close>, a number within
  \<open>(M + 2^-1022) * ((1 + 2^-53)^(4 n) - 1)\<close> of their arithmetic mean whenever it is
  finite (it is an infinity or NaN only after an overflow).
\<close>

theorem RunningAverage_mean_within_tolerance:
  "RunningAverage_add r val =
     \<lparr>avg = fadd (fdiv (fmul (avg r) (float_of_nat (count r))) (float_of_nat (count r + 1)))
                  (fdiv val (float_of_nat (count r + 1))),
      count = count r + 1\<rparr>
   \<and> RunningAverage_add_all r (vals @ [val]) = RunningAverage_add (RunningAverage_add_all r vals) val
   \<and> count (RunningAverage_add_all RunningAverage_init vals) = length vals
   \<and> RunningAverage_get (RunningAverage_add_all RunningAverage_init []) = Fin 0
   \<and> (length xs < 2 ^ 53 \<and> (\<forall>x\<in>set xs. \<bar>x\<bar> \<le> M)
        \<and> RunningAverage_get (RunningAverage_add_all RunningAverage_init (map Fin xs)) = Fin a
      \<longrightarrow> \<bar>a - mean xs\<bar> \<le> tolerance M (length xs))"
proof -
  have "RunningAverage_get (RunningAverage_add_all RunningAverage_init []) = Fin 0"
    by (simp add: RunningAverage_get_def RunningAverage_add_all_def RunningAverage_init_def)
  moreover have "length xs < 2 ^ 53 \<and> (\<forall>x\<in>set xs. \<bar>x\<bar> \<le> M)
        \<and> RunningAverage_get (RunningAverage_add_all RunningAverage_init (map Fin xs)) = Fin a
      \<longrightarrow> \<bar>a - mean xs\<bar> \<le> tolerance M (length xs)"
    using running_average_tolerance [of xs M a] by (simp add: RunningAverage_get_def)
  ultimately show ?thesis
    using add_formula [of r val] add_all_snoc [of r vals val] add_all_count [of vals]
    by (intro conjI)
qed

theorem RunningAverage_mean_within_tolerance_witness:
  "length [0, 3, 4, 1 :: real] < 2 ^ 53
   \<and> RunningAverage_get (RunningAverage_add_all RunningAverage_init (map Fin [0, 3, 4, 1]))
       = Fin (9007199254740991 / 4503599627370496)
   \<and> \<bar>9007199254740991 / 4503599627370496 - mean [0, 3, 4, 1]\<bar> \<le> tolerance 4 (length [0, 3, 4, 1 :: real])
   \<and> count (RunningAverage_add_all RunningAverage_init (map Fin [0, 3, 4, 1])) = 4"
proof -
  note t = RunningAverage_mean_within_tolerance
      [where xs = "[0, 3, 4, 1]" and M = 4 and a = "9007199254740991 / 4503599627370496"
         and vals = "map Fin [0, 3, 4, 1]"]
  have l: "length [0, 3, 4, 1 :: real] < 2 ^ 53"
    by simp
  have b: "\<forall>x\<in>set [0, 3, 4, 1 :: real]. \<bar>x\<bar> \<le> 4"
    by simp
  have g: "RunningAverage_get (RunningAverage_add_all RunningAverage_init (map Fin [0, 3, 4, 1]))
           = Fin (9007199254740991 / 4503599627370496)"
    by (simp add: example_rounded_average RunningAverage_get_def)
  from t l b g have c: "\<bar>9007199254740991 / 4503599627370496 - mean [0, 3, 4, 1]\<bar>
                        \<le> tolerance 4 (length [0, 3, 4, 1 :: real])"
    by blast
  from t have n: "count (RunningAverage_add_all RunningAverage_init (map Fin [0, 3, 4, 1]))
                  = length (map Fin [0, 3, 4, 1 :: real])"
    by blast
  have n': "count (RunningAverage_add_all RunningAverage_init (map Fin [0, 3, 4, 1])) = 4"
    using n by simp
  show ?thesis
    using l g c n' by (intro conjI)
qed

section \<open>Properties of EarlyStopCondition\<close>

lemma check_state:
  "0 \<le> patience c \<Longrightarrow>
   snd (EarlyStopCondition_check c v) =
     (if improves c v then c\<lparr>wait_count := 0, last_best := v\<rparr>
      else c\<lparr>wait_count := wait_count c + 1\<rparr>)"
  by (auto simp: EarlyStopCondition_check_def improves_def fgt_def Let_def)

lemma check_answer:
  "0 \<le> patience c \<Longrightarrow>
   fst (EarlyStopCondition_check c v) = (patience c \<le> wait_count (snd (EarlyStopCondition_check c v)))"
  by (auto simp: EarlyStopCondition_check_def Let_def)

text \<open>
  Claim C2. For an EarlyStopCondition with patience at least 0 and every call
  \<open>check(value)\<close>: if the value strictly improves on the best seen in the configured
  direction, the wait-counter is reset to 0 and the best seen becomes the value;
  otherwise the wait-counter is incremented by one (and nothing else changes). The call
  returns true exactly when, after this update, the wait-counter is at least the patience.
\<close>

theorem check_active:
  "0 \<le> patience c \<Longrightarrow>
   snd (EarlyStopCondition_check c v) =
     (if improves c v then c\<lparr>wait_count := 0, last_best := v\<rparr>
      else c\<lparr>wait_count := wait_count c + 1\<rparr>)
   \<and> fst (EarlyStopCondition_check c v) =
       (patience c \<le> wait_count (snd (EarlyStopCondition_check c v)))"
  using check_state check_answer by blast

theorem check_active_witness:
  "0 \<le> patience (EarlyStopCondition_init 1 False)
   \<and> improves (EarlyStopCondition_init 1 False) (Fin 5)
   \<and> EarlyStopCondition_check (EarlyStopCondition_init 1 False) (Fin 5) =
       (False, \<lparr>patience = 1, if_max = False, last_best = Fin 5, wait_count = 0\<rparr>)
   \<and> \<not> improves \<lparr>patience = 1, if_max = False, last_best = Fin 5, wait_count = 0\<rparr> (Fin 6)
   \<and> EarlyStopCondition_check \<lparr>patience = 1, if_max = False, last_best = Fin 5, wait_count = 0\<rparr> (Fin 6) =
       (True, \<lparr>patience = 1, if_max = False, last_best = Fin 5, wait_count = 1\<rparr>)"
proof -
  have h: "0 \<le> patience (EarlyStopCondition_init 1 False)"
    and h': "0 \<le> patience \<lparr>patience = 1, if_max = False, last_best = Fin 5, wait_count = 0\<rparr>"
    by (simp_all add: EarlyStopCondition_init_def)
  show ?thesis
    using check_active [OF h, of "Fin 5"] check_active [OF h', of "Fin 6"]
    by (simp add: EarlyStopCondition_init_def improves_def prod_eq_iff)
qed

text \<open>
  Claim C5. With patience 2, minimizing, the calls \<open>check(5)\<close>, \<open>check(4)\<close>,
  \<open>check(6)\<close>, \<open>check(7)\<close> leave the wait-counter at 0, 0, 1, 2; the first three
  return false and the fourth returns true.
\<close>

theorem patience_two_example:
  "map (\<lambda>r. (fst r, wait_count (snd r)))
     (check_trace (EarlyStopCondition_init 2 False) [Fin 5, Fin 4, Fin 6, Fin 7]) =
   [(False, 0), (False, 0), (False, 1), (True, 2)]"
  by (simp add: EarlyStopCondition_init_def EarlyStopCondition_check_def fgt_def Let_def)


lemma check_wait_nonneg:
  "0 \<le> wait_count c \<Longrightarrow> 0 \<le> wait_count (snd (EarlyStopCondition_check c v))"
  by (simp add: EarlyStopCondition_check_def Let_def)

lemma check_patience:
  "patience (snd (EarlyStopCondition_check c v)) = patience c"
  by (simp add: EarlyStopCondition_check_def Let_def)

lemma check_patience_zero:
  "patience c = 0 \<Longrightarrow> 0 \<le> wait_count c \<Longrightarrow> fst (EarlyStopCondition_check c v)"
  by (simp add: EarlyStopCondition_check_def Let_def)

lemma trace_patience_zero:
  "patience c = 0 \<Longrightarrow> 0 \<le> wait_count c \<Longrightarrow>
   map fst (check_trace c vs) = replicate (length vs) True"
proof (induction vs arbitrary: c)
  case Nil
  show ?case by simp
next
  case (Cons v vs)
  have "map fst (check_trace (snd (EarlyStopCondition_check c v)) vs) = replicate (length vs) True"
    using Cons.prems by (intro Cons.IH) (simp_all add: check_patience check_wait_nonneg)
  then show ?case
    using Cons.prems by (simp add: Let_def check_patience_zero)
qed

text \<open>
  Claim C3, as stated, fails: with patience 0 the first call, whose value 5 strictly
  improves on the initial best (infinity), already returns true.
\<close>

theorem patience_zero_triggers_on_improvement:
  "improves (EarlyStopCondition_init 0 False) (Fin 5)
   \<and> fst (EarlyStopCondition_check (EarlyStopCondition_init 0 False) (Fin 5))"
  by (simp add: EarlyStopCondition_init_def improves_def EarlyStopCondition_check_def Let_def)

text \<open>
  Claim C3, amended. An EarlyStopCondition constructed with patience 0 returns true on
  every call to \<open>check\<close>, from the first call on, whether or not the value improves on
  the best seen: the wait-counter is never below 0.
\<close>

theorem patience_zero_always_triggers:
  "map fst (check_trace (EarlyStopCondition_init 0 m) vs) = replicate (length vs) True"
  by (rule trace_patience_zero) (simp_all add: EarlyStopCondition_init_def)

theorem patience_zero_always_triggers_witness:
  "map fst (check_trace (EarlyStopCondition_init 0 False) [Fin 5, Fin 4, Fin 6]) = [True, True, True]"
  using patience_zero_always_triggers [of False "[Fin 5, Fin 4, Fin 6]"]
  by (simp add: numeral_3_eq_3)

lemma check_disabled:
  "patience c < 0 \<Longrightarrow> EarlyStopCondition_check c v = (False, c)"
  by (simp add: EarlyStopCondition_check_def)

lemma trace_disabled:
  "patience c < 0 \<Longrightarrow> check_trace c vs = replicate (length vs) (False, c)"
  by (induction vs) (simp_all add: check_disabled Let_def)

text \<open>
  Claim C4. For an EarlyStopCondition constructed with a patience below 0 and every
  sequence of values, every call to \<open>check\<close> returns false (and leaves the object as
  it was constructed).
\<close>

theorem negative_patience_never_triggers:
  "p < 0 \<Longrightarrow>
   check_trace (EarlyStopCondition_init p m) vs =
     replicate (length vs) (False, EarlyStopCondition_init p m)"
  by (rule trace_disabled) (simp add: EarlyStopCondition_init_def)

theorem negative_patience_never_triggers_witness:
  "(- 1 :: int) < 0
   \<and> check_trace (EarlyStopCondition_init (- 1) False) [Fin 3, Fin 4, NaN] =
       [(False, EarlyStopCondition_init (- 1) False),
        (False, EarlyStopCondition_init (- 1) False),
        (False, EarlyStopCondition_init (- 1) False)]"
proof -
  have h: "(- 1 :: int) < 0" by simp
  show ?thesis
    using negative_patience_never_triggers [OF h, of False "[Fin 3, Fin 4, NaN]"]
    by (simp add: numeral_3_eq_3)
qed

section \<open>Properties of the shared and saved parameters\<close>

lemma update_fresh:
  "k \<notin> fst ` set ps \<Longrightarrow> AList.update k v ps = ps @ [(k, v)]"
  by (induction ps) auto

lemma foldl_update_fresh:
  "distinct (map fst kvs) \<Longrightarrow> fst ` set kvs \<inter> fst ` set ps = {} \<Longrightarrow>
   foldl (\<lambda>ps (k, v). AList.update k v ps) ps kvs = ps @ kvs"
proof (induction kvs arbitrary: ps)
  case Nil
  show ?case by simp
next
  case (Cons kv kvs)
  obtain k v where kv: "kv = (k, v)" by (cases kv)
  have fresh: "k \<notin> fst ` set ps"
    using Cons.prems(2) by (auto simp: kv)
  have d: "distinct (map fst kvs)" and nk: "k \<notin> fst ` set kvs"
    using Cons.prems(1) by (auto simp: kv)
  have disj: "fst ` set kvs \<inter> fst ` set (ps @ [(k, v)]) = {}"
    using Cons.prems(2) nk by (auto simp: kv)
  show ?case
    using Cons.IH [OF d disj] by (simp add: kv update_fresh [OF fresh])
qed

lemma foldl_update_map:
  "foldl (\<lambda>ps (n, v). AList.update (f n) (g v) ps) ps kvs =
   foldl (\<lambda>ps (k, v). AList.update k v ps) ps (map (\<lambda>(n, v). (f n, g v)) kvs)"
  by (induction kvs arbitrary: ps) (simp_all add: case_prod_beta)

lemma foldl_update_inj:
  assumes "distinct (map fst kvs)" and "inj f"
  shows "foldl (\<lambda>ps (n, v). AList.update (f n) (g v) ps) [] kvs = map (\<lambda>(n, v). (f n, g v)) kvs"
proof -
  have "map fst (map (\<lambda>(n, v). (f n, g v)) kvs) = map f (map fst kvs)"
    by (simp add: case_prod_beta)
  moreover have "distinct (map f (map fst kvs))"
    using assms by (simp only: distinct_map) (auto intro: inj_on_subset)
  ultimately have "distinct (map fst (map (\<lambda>(n, v). (f n, g v)) kvs))"
    by (simp only:)
  then have "foldl (\<lambda>ps (k, v). AList.update k v ps) [] (map (\<lambda>(n, v). (f n, g v)) kvs)
             = [] @ map (\<lambda>(n, v). (f n, g v)) kvs"
    by (rule foldl_update_fresh) simp
  then show ?thesis
    by (simp only: foldl_update_map [of f g "[]" kvs] append_Nil)
qed

lemma merge_params_distinct:
  assumes "distinct (map fst sd)"
  shows "merge_params prefix sd [] = map (\<lambda>(n, v). (prefix @ '':'' @ n, numpy v)) sd"
  unfolding merge_params_def
  by (rule foldl_update_inj [OF assms]) (simp add: inj_on_def)


lemma str_split_nonempty: "str_split sep s \<noteq> []"
  by (induction s) (simp_all split: list.split)

lemma str_join_split: "str_join [sep] (str_split sep s) = s"
proof (induction s)
  case Nil
  show ?case by simp
next
  case (Cons c cs)
  obtain p ps where sp: "str_split sep cs = p # ps"
    using str_split_nonempty [of sep cs] by (cases "str_split sep cs") simp_all
  show ?case
  proof (cases "c = sep")
    case True
    with Cons sp show ?thesis by simp
  next
    case False
    with Cons sp show ?thesis by (cases ps) simp_all
  qed
qed

lemma split_net_prefix:
  "str_split (CHR '':'') (''net:'' @ name) = ''net'' # str_split (CHR '':'') name"
proof -
  obtain p ps where sp: "str_split (CHR '':'') name = p # ps"
    using str_split_nonempty [of "CHR '':''" name] by (cases "str_split (CHR '':'') name") simp_all
  show ?thesis by (simp add: sp)
qed

lemma strip_net_prefix:
  "str_join '':'' (tl (str_split (CHR '':'') (''net:'' @ name))) = name"
  by (simp only: split_net_prefix list.sel str_join_split)

lemma strip_net_prefix_chars:
  "str_join '':'' (tl (str_split (CHR '':'') (CHR ''n'' # CHR ''e'' # CHR ''t'' # CHR '':'' # name))) = name"
  using strip_net_prefix [of name] by (simp del: str_split.simps)

lemma from_numpy_numpy: "from_numpy (numpy t) = t"
  by (simp add: from_numpy_def numpy_def)

lemma int_of_asarray: "int_of_array (asarray n) = Inr n"
  by (simp add: int_of_array_def asarray_def)


lemma get_shared_parameters_Some:
  assumes "distinct (map fst (net (model self)))" and "if_share_params (knobs self)"
  shows "get_shared_parameters self =
           Some (map (\<lambda>(n, v). (''net:'' @ n, numpy v)) (net (model self))
                 @ [(''step'', asarray (step (model self)))])"
proof -
  have "''step'' \<notin> fst ` set (map (\<lambda>(n, v). (''net:'' @ n, numpy v)) (net (model self)))"
    by (auto simp: case_prod_beta)
  then show ?thesis
    using assms(2)
    by (simp add: get_shared_parameters_def merge_params_distinct [OF assms(1)] update_fresh)
qed

lemma extract_exported:
  assumes "distinct (map fst sd)"
  shows "extract_params (map (\<lambda>(n, v). (''net:'' @ n, numpy v)) sd @ [(''step'', a)]) ''net'' = sd"
proof -
  let ?h = "\<lambda>(n, v). (''net:'' @ n, numpy v)"
  let ?F = "\<lambda>name. str_join '':'' (tl (str_split (CHR '':'') name))"
  have filt: "filter (\<lambda>(name, value). startswith name (''net'' @ '':'')) (map ?h sd @ [(''step'', a)])
              = map ?h sd"
    by (induction sd) (auto simp: startswith_def)
  have unmap: "map (\<lambda>(n, v). (?F n, from_numpy v)) (map ?h sd) = sd"
    by (induction sd) (auto simp: strip_net_prefix_chars from_numpy_numpy simp del: str_split.simps)
  have "extract_params (map ?h sd @ [(''step'', a)]) ''net''
        = foldl (\<lambda>d (name, value). AList.update (?F name) (from_numpy value) d) [] (map ?h sd)"
    unfolding extract_params_def filt ..
  also have "\<dots> = foldl (\<lambda>ps (k, v). AList.update k v ps) [] sd"
    by (simp only: foldl_update_map [of ?F from_numpy "[]" "map ?h sd"] unmap)
  also have "\<dots> = [] @ sd"
    by (rule foldl_update_fresh [OF assms]) simp
  finally show ?thesis by simp
qed

lemma overwrite_all:
  "map fst own = map fst giv \<Longrightarrow> (\<And>k t'. (k, t') \<in> set giv \<Longrightarrow> m k = Some t') \<Longrightarrow>
   map (\<lambda>(k, t). (k, case m k of None \<Rightarrow> t | Some t' \<Rightarrow> t')) own = giv"
proof (induction own arbitrary: giv)
  case Nil
  then show ?case by simp
next
  case (Cons p own)
  then obtain q giv' where g: "giv = q # giv'" by (cases giv) auto
  obtain k t where p: "p = (k, t)" by (cases p)
  obtain k' t' where q: "q = (k', t')" by (cases q)
  have kk: "k' = k" using Cons.prems(1) by (simp add: g p q)
  have "m k = Some t'" using Cons.prems(2) [of k t'] by (simp add: g q kk)
  moreover have "map (\<lambda>(k, t). (k, case m k of None \<Rightarrow> t | Some t' \<Rightarrow> t')) own = giv'"
    using Cons.prems by (intro Cons.IH) (simp_all add: g)
  ultimately show ?case by (simp add: g p q kk)
qed

lemma input_param_same_shape: "shape t' = shape t \<Longrightarrow> input_param t t' = t'"
  by (auto simp: input_param_def)

lemma load_state_dict_same_shapes:
  assumes "\<And>k t t'. (k, t) \<in> set own \<Longrightarrow> map_of given k = Some t' \<Longrightarrow> shape t' = shape t"
  shows "load_state_dict own given strict =
     (if strict \<and> (unexpected_keys own given \<noteq> [] \<or> missing_keys own given \<noteq> [])
      then Inl RuntimeError
      else Inr (map (\<lambda>(k, t). (k, case map_of given k of None \<Rightarrow> t | Some t' \<Rightarrow> t')) own))"
proof -
  have ie: "index_errors own given = []"
    unfolding index_errors_def using assms
    by (fastforce simp: filter_empty_conv split: option.splits)
  have sm: "size_mismatches own given = []"
    unfolding size_mismatches_def using assms
    by (auto simp: filter_empty_conv input_param_same_shape split: option.splits)
  have "map (\<lambda>(k, t). (k, case map_of given k of None \<Rightarrow> t | Some t' \<Rightarrow> input_param t t')) own
        = map (\<lambda>(k, t). (k, case map_of given k of None \<Rightarrow> t | Some t' \<Rightarrow> t')) own"
    using assms by (auto simp: input_param_same_shape split: option.splits)
  then show ?thesis
    by (simp add: load_state_dict_def ie sm)
qed

lemma same_architecture_shapes:
  assumes "distinct (map fst given)" and "map fst own = map fst given"
    and "map (shape \<circ> snd) own = map (shape \<circ> snd) given"
    and "(k, t) \<in> set own" and "map_of given k = Some t'"
  shows "shape t' = shape t"
proof -
  have len: "length own = length given"
    using assms(2) by (metis length_map)
  obtain i where i: "i < length own" "own ! i = (k, t)"
    using assms(4) by (auto simp: in_set_conv_nth)
  have "fst (given ! i) = k"
    using assms(2) i len by (metis fst_conv nth_map)
  moreover have sh: "shape (snd (given ! i)) = shape t"
    using assms(3) i len by (metis comp_apply nth_map snd_conv)
  ultimately have "(k, snd (given ! i)) \<in> set given"
    using i(1) len by (metis nth_mem prod.collapse)
  then have "map_of given k = Some (snd (given ! i))"
    using assms(1) by simp
  with assms(5) sh show ?thesis by simp
qed

lemma load_same_architecture:
  assumes "distinct (map fst given)" and "map fst own = map fst given"
    and "map (shape \<circ> snd) own = map (shape \<circ> snd) given"
  shows "load_state_dict own given False = Inr given"
proof -
  have look: "\<And>k t'. (k, t') \<in> set given \<Longrightarrow> map_of given k = Some t'"
    using assms(1) by simp
  have "map (\<lambda>(k, t). (k, case map_of given k of None \<Rightarrow> t | Some t' \<Rightarrow> t')) own = given"
    using overwrite_all [OF assms(2), of "map_of given"] look by simp
  moreover have "load_state_dict own given False =
      Inr (map (\<lambda>(k, t). (k, case map_of given k of None \<Rightarrow> t | Some t' \<Rightarrow> t')) own)"
    using same_architecture_shapes [OF assms]
    by (subst load_state_dict_same_shapes) simp_all
  ultimately show ?thesis by simp
qed

text \<open>
  Claim C8. Exporting with \<open>get_shared_parameters\<close> (the net's state dict under the
  names \<open>net:<name>\<close>, merged with the step counter under \<open>step\<close>) and importing that
  mapping with \<open>_load_shared_parameters\<close> into a model of the same architecture (the same
  names in the same order, with the same shapes) restores every tensor of the net and the
  step counter to the exported values.
\<close>

theorem shared_parameters_round_trip:
  assumes "distinct (map fst (net (model self)))"
    and "get_shared_parameters self = Some params"
    and "map fst (net (model other)) = map fst (net (model self))"
    and "map (shape \<circ> snd) (net (model other)) = map (shape \<circ> snd) (net (model self))"
  shows "load_shared_parameters other params = Inr (other\<lparr>model := model self\<rparr>)"
proof -
  let ?sd = "net (model self)"
  have share: "if_share_params (knobs self)"
    using assms(2) by (auto simp: get_shared_parameters_def split: if_splits)
  have params: "params = map (\<lambda>(n, v). (''net:'' @ n, numpy v)) ?sd
                         @ [(''step'', asarray (step (model self)))]"
    using get_shared_parameters_Some [OF assms(1) share] assms(2) by simp
  have ex: "extract_params params ''net'' = ?sd"
    unfolding params by (rule extract_exported [OF assms(1)])
  have ld: "load_state_dict (net (model other)) ?sd False = Inr ?sd"
    by (rule load_same_architecture [OF assms(1,3,4)])
  have st: "map_of params ''step'' = Some (asarray (step (model self)))"
  proof -
    have "''step'' \<notin> fst ` set (map (\<lambda>(n, v). (''net:'' @ n, numpy v)) ?sd)"
      by (auto simp: case_prod_beta)
    then have "map_of (map (\<lambda>(n, v). (''net:'' @ n, numpy v)) ?sd) ''step'' = None"
      by (metis map_of_eq_None_iff)
    then show ?thesis
      unfolding params by (simp add: map_add_def)
  qed
  have ne: "length params \<noteq> 0"
    unfolding params by simp
  show ?thesis
    using ne by (simp add: load_shared_parameters_def ex ld st int_of_asarray)
qed


theorem shared_parameters_round_trip_witness:
  "distinct (map fst (net (model example_self)))
   \<and> get_shared_parameters example_self =
       Some [(''net:w'', NdArray [2] [1, 2]), (''net:b:0'', NdArray [] [3]), (''step'', NdArray [] [7])]
   \<and> map fst (net (model example_other)) = map fst (net (model example_self))
   \<and> map (shape \<circ> snd) (net (model example_other)) = map (shape \<circ> snd) (net (model example_self))
   \<and> load_shared_parameters example_other
         [(''net:w'', NdArray [2] [1, 2]), (''net:b:0'', NdArray [] [3]), (''step'', NdArray [] [7])]
       = Inr (example_other\<lparr>model := \<lparr>net = [(''w'', Tensor [2] [1, 2]), (''b:0'', Tensor [] [3])], step = 7\<rparr>\<rparr>)"
proof -
  have d: "distinct (map fst (net (model example_self)))"
    by (simp add: example_self_def)
  have g: "get_shared_parameters example_self =
       Some [(''net:w'', NdArray [2] [1, 2]), (''net:b:0'', NdArray [] [3]), (''step'', NdArray [] [7])]"
    by (simp add: example_self_def example_knobs_def get_shared_parameters_def merge_params_def
        numpy_def asarray_def)
  have k: "map fst (net (model example_other)) = map fst (net (model example_self))"
    by (simp add: example_self_def example_other_def)
  have h: "map (shape \<circ> snd) (net (model example_other)) = map (shape \<circ> snd) (net (model example_self))"
    by (simp add: example_self_def example_other_def)
  have m: "model example_self = \<lparr>net = [(''w'', Tensor [2] [1, 2]), (''b:0'', Tensor [] [3])], step = 7\<rparr>"
    by (simp add: example_self_def)
  show ?thesis
    using shared_parameters_round_trip [OF d g k h] d g k h by (simp only: m simp_thms)
qed













text \<open>
  Claim C9. \<open>get_shared_parameters\<close> returns None exactly when the knob
  \<open>if_share_params\<close> is false, whatever the net and the step are; when the knob is true
  it returns the mapping of every tensor of the net under \<open>net:<name>\<close>, followed by the
  step counter under \<open>step\<close>.
\<close>

theorem get_shared_parameters_knob:
  "(get_shared_parameters self = None) = (\<not> if_share_params (knobs self))
   \<and> (distinct (map fst (net (model self))) \<longrightarrow> if_share_params (knobs self) \<longrightarrow>
        get_shared_parameters self =
          Some (map (\<lambda>(n, v). (''net:'' @ n, numpy v)) (net (model self))
                @ [(''step'', asarray (step (model self)))]))"
  using get_shared_parameters_Some [of self]
  by (simp add: get_shared_parameters_def)

theorem get_shared_parameters_knob_witness:
  "get_shared_parameters (example_self\<lparr>knobs := example_knobs\<lparr>if_share_params := False\<rparr>\<rparr>) = None
   \<and> distinct (map fst (net (model example_self)))
   \<and> if_share_params (knobs example_self)
   \<and> get_shared_parameters example_self =
       Some [(''net:w'', NdArray [2] [1, 2]), (''net:b:0'', NdArray [] [3]), (''step'', NdArray [] [7])]"
proof -
  have off: "\<not> if_share_params (knobs (example_self\<lparr>knobs := example_knobs\<lparr>if_share_params := False\<rparr>\<rparr>))"
    by simp
  have d: "distinct (map fst (net (model example_self)))"
    and on: "if_share_params (knobs example_self)"
    by (simp_all add: example_self_def example_knobs_def)
  have v: "map (\<lambda>(n, v). (''net:'' @ n, numpy v)) (net (model example_self))
             @ [(''step'', asarray (step (model example_self)))]
           = [(''net:w'', NdArray [2] [1, 2]), (''net:b:0'', NdArray [] [3]), (''step'', NdArray [] [7])]"
    by (simp add: example_self_def numpy_def asarray_def)
  show ?thesis
    using get_shared_parameters_knob [of "example_self\<lparr>knobs := example_knobs\<lparr>if_share_params := False\<rparr>\<rparr>"]
      get_shared_parameters_knob [of example_self] off d on
    by (simp only: v simp_thms)
qed

text \<open>
  Claim C10. \<open>_load_shared_parameters\<close> with an empty mapping returns at once and leaves
  the object, its net and its step counter, as it was.
\<close>

theorem load_shared_parameters_empty:
  "load_shared_parameters self [] = Inr self"
  by (simp add: load_shared_parameters_def)


section \<open>Properties of the training loop\<close>

lemma epochs_run_append: "epochs_run (xs @ ys) = epochs_run xs @ epochs_run ys"
  by (induction xs rule: epochs_run.induct) simp_all

lemma epochs_validated_append:
  "epochs_validated (xs @ ys) = epochs_validated xs @ epochs_validated ys"
  by (induction xs rule: epochs_validated.induct) simp_all

lemma train_batches_frame:
  "train_batches T bs s l a = (s', l', a') \<Longrightarrow>
   logger s' = logger s \<and> early_stop_condition s' = early_stop_condition s"
proof (induction bs arbitrary: s l a)
  case Nil
  then show ?case by simp
next
  case (Cons b bs)
  obtain n' opt' loss acc where tb: "train_batch T (cur_net s) (optimizer s) b = (n', opt', loss, acc)"
    by (cases "train_batch T (cur_net s) (optimizer s) b") auto
  from Cons.prems have "train_batches T bs
            (s\<lparr>cur_net := n', optimizer := opt', cur_step := cur_step s + 1\<rparr>)
            (RunningAverage_add l loss) (RunningAverage_add a acc) = (s', l', a')"
    by (simp add: tb)
  from Cons.IH [OF this] show ?case by simp
qed

lemma train_val_batches_frame:
  "train_val_batches T bs s l a = (s', l', a') \<Longrightarrow>
   logger s' = logger s \<and> early_stop_condition s' = early_stop_condition s"
proof (induction bs arbitrary: s l a)
  case Nil
  then show ?case by simp
next
  case (Cons b bs)
  obtain n' opt' loss acc where tb: "eval_batch T (cur_net s) (optimizer s) b = (n', opt', loss, acc)"
    by (cases "eval_batch T (cur_net s) (optimizer s) b") auto
  from Cons.prems have "train_val_batches T bs
            (s\<lparr>cur_net := n', optimizer := opt'\<rparr>)
            (RunningAverage_add l loss) (RunningAverage_add a acc) = (s', l', a')"
    by (simp add: tb)
  from Cons.IH [OF this] show ?case by simp
qed

lemma train_pass_frame:
  "\<exists>st l a. logger (train_pass T bsize tr e s) = logger s @ [RunningEpoch e, TrainMetrics e st l a]"
  "early_stop_condition (train_pass T bsize tr e s) = early_stop_condition s"
proof -
  let ?s2 = "(logger_log (RunningEpoch e) s)\<lparr>optimizer := scheduler_step T (optimizer (logger_log (RunningEpoch e) s))\<rparr>"
  obtain s3 l a where tb: "train_batches T (DataLoader T tr bsize True e) ?s2
                RunningAverage_init RunningAverage_init = (s3, l, a)"
    by (metis prod_cases3)
  have f: "logger s3 = logger ?s2" "early_stop_condition s3 = early_stop_condition ?s2"
    using train_batches_frame [OF tb] by simp_all
  have tp: "train_pass T bsize tr e s =
      logger_log (TrainMetrics e (cur_step s3) (RunningAverage_get l) (RunningAverage_get a)) s3"
    by (simp add: train_pass_def Let_def tb)
  show "\<exists>st l a. logger (train_pass T bsize tr e s) = logger s @ [RunningEpoch e, TrainMetrics e st l a]"
    by (simp add: tp f logger_log_def)
  show "early_stop_condition (train_pass T bsize tr e s) = early_stop_condition s"
    by (simp add: tp f logger_log_def)
qed

lemma train_val_pass_frame:
  "\<exists>l a. logger (fst (train_val_pass T bsize va e s)) = logger s @ [TrainValMetrics e l a]"
  "early_stop_condition (fst (train_val_pass T bsize va e s)) = early_stop_condition s"
proof -
  obtain s' l a where tb: "train_val_batches T (DataLoader T va bsize False e) s
                RunningAverage_init RunningAverage_init = (s', l, a)"
    by (metis prod_cases3)
  have f: "logger s' = logger s" "early_stop_condition s' = early_stop_condition s"
    using train_val_batches_frame [OF tb] by simp_all
  have tp: "fst (train_val_pass T bsize va e s) =
      logger_log (TrainValMetrics e (RunningAverage_get l) (RunningAverage_get a)) s'"
    by (simp add: train_val_pass_def tb)
  show "\<exists>l a. logger (fst (train_val_pass T bsize va e s)) = logger s @ [TrainValMetrics e l a]"
    by (simp add: tp f logger_log_def)
  show "early_stop_condition (fst (train_val_pass T bsize va e s)) = early_stop_condition s"
    by (simp add: tp f logger_log_def)
qed

lemma run_epoch_no_val:
  "run_epoch T bsize tr [] e s = (False, train_pass T bsize tr e s)"
  by (simp add: run_epoch_def)

lemma run_epoch_val:
  fixes T :: "('x, 'b, 'o) torch" and s :: "'o train_state"
    and bsize :: int and tr va :: "'x list" and e :: nat
  assumes "va \<noteq> []"
  defines "s4 \<equiv> train_pass T bsize tr e s"
  defines "r \<equiv> EarlyStopCondition_check (early_stop_condition s)
                   (snd (train_val_pass T bsize va e s4))"
  shows "fst (run_epoch T bsize tr va e s) = fst r"
    and "early_stop_condition (snd (run_epoch T bsize tr va e s)) = snd r"
    and "logger (snd (run_epoch T bsize tr va e s)) =
           logger (fst (train_val_pass T bsize va e s4))
           @ (if fst r then [NotImproved (patience (snd r)), Msg ''Early stopping...''] else [])"
proof -
  obtain s6 vl where vp: "train_val_pass T bsize va e s4 = (s6, vl)"
    by (cases "train_val_pass T bsize va e s4")
  have e6: "early_stop_condition s6 = early_stop_condition s"
  proof -
    have "s6 = fst (train_val_pass T bsize va e s4)" by (simp add: vp)
    then show ?thesis
      by (simp only: train_val_pass_frame(2) s4_def train_pass_frame(2))
  qed
  obtain stop c where ck: "EarlyStopCondition_check (early_stop_condition s) vl = (stop, c)"
    by (cases "EarlyStopCondition_check (early_stop_condition s) vl")
  have r: "r = (stop, c)"
    by (simp add: r_def vp ck)
  have re: "run_epoch T bsize tr va e s =
     (if stop then (True, logger_log (Msg ''Early stopping...'')
                            (logger_log (NotImproved (patience c)) (s6\<lparr>early_stop_condition := c\<rparr>)))
      else (False, s6\<lparr>early_stop_condition := c\<rparr>))"
    using assms(1) by (simp add: run_epoch_def Let_def s4_def [symmetric] vp e6 ck)
  show "fst (run_epoch T bsize tr va e s) = fst r"
    by (simp add: re r)
  show "early_stop_condition (snd (run_epoch T bsize tr va e s)) = snd r"
    by (simp add: re r logger_log_def)
  show "logger (snd (run_epoch T bsize tr va e s)) =
           logger (fst (train_val_pass T bsize va e s4))
           @ (if fst r then [NotImproved (patience (snd r)), Msg ''Early stopping...''] else [])"
    by (simp add: re r vp logger_log_def)
qed


lemma run_epoch_epochs:
  "epochs_run (logger (snd (run_epoch T bsize tr va e s))) = epochs_run (logger s) @ [e]"
proof -
  obtain st l a where tp:
    "logger (train_pass T bsize tr e s) = logger s @ [RunningEpoch e, TrainMetrics e st l a]"
    using train_pass_frame(1) [of T bsize tr e s] by blast
  show ?thesis
  proof (cases "va = []")
    case True
    then show ?thesis by (simp add: run_epoch_no_val tp epochs_run_append)
  next
    case False
    obtain l' a' where vp:
      "logger (fst (train_val_pass T bsize va e (train_pass T bsize tr e s)))
       = logger (train_pass T bsize tr e s) @ [TrainValMetrics e l' a']"
      using train_val_pass_frame(1) [of T bsize va e "train_pass T bsize tr e s"] by blast
    show ?thesis
      by (simp add: run_epoch_val(3) [OF False] vp tp epochs_run_append)
  qed
qed

lemma run_epoch_stop_last:
  assumes "fst (run_epoch T bsize tr va e s)"
  shows "last (logger (snd (run_epoch T bsize tr va e s))) = Msg ''Early stopping...''"
proof (cases "va = []")
  case True
  with assms show ?thesis by (simp add: run_epoch_no_val)
next
  case False
  from assms have "fst (EarlyStopCondition_check (early_stop_condition s)
      (snd (train_val_pass T bsize va e (train_pass T bsize tr e s))))"
    by (simp only: run_epoch_val(1) [OF False])
  then show ?thesis
    by (simp add: run_epoch_val(3) [OF False])
qed

lemma epoch_loop_break:
  "fst (run_epoch T bsize tr va e s) \<Longrightarrow>
   epoch_loop T bsize tr va (e # rest) s = snd (run_epoch T bsize tr va e s)"
  by (cases "run_epoch T bsize tr va e s") auto

lemma epoch_loop_continue:
  "\<not> fst (run_epoch T bsize tr va e s) \<Longrightarrow>
   epoch_loop T bsize tr va (e # rest) s = epoch_loop T bsize tr va rest (snd (run_epoch T bsize tr va e s))"
  by (cases "run_epoch T bsize tr va e s") auto

lemma epoch_loop_no_val:
  "epochs_run (logger (epoch_loop T bsize tr [] es s)) = epochs_run (logger s) @ es
   \<and> epochs_validated (logger (epoch_loop T bsize tr [] es s)) = epochs_validated (logger s)
   \<and> early_stop_condition (epoch_loop T bsize tr [] es s) = early_stop_condition s"
proof (induction es arbitrary: s)
  case Nil
  show ?case by simp
next
  case (Cons e es)
  obtain st l a where tp:
    "logger (train_pass T bsize tr e s) = logger s @ [RunningEpoch e, TrainMetrics e st l a]"
    using train_pass_frame(1) [of T bsize tr e s] by blast
  show ?case
    using Cons.IH [of "train_pass T bsize tr e s"]
    by (simp add: run_epoch_no_val tp epochs_run_append epochs_validated_append train_pass_frame(2))
qed

lemma epoch_loop_prefix:
  "\<exists>k. k \<le> length es
     \<and> epochs_run (logger (epoch_loop T bsize tr va es s)) = epochs_run (logger s) @ take k es
     \<and> (k < length es \<longrightarrow> last (logger (epoch_loop T bsize tr va es s)) = Msg ''Early stopping...'')"
proof (induction es arbitrary: s)
  case Nil
  show ?case by simp
next
  case (Cons e es)
  let ?r = "run_epoch T bsize tr va e s"
  show ?case
  proof (cases "fst ?r")
    case True
    have "epochs_run (logger (epoch_loop T bsize tr va (e # es) s)) = epochs_run (logger s) @ take 1 (e # es)"
      by (simp add: epoch_loop_break [OF True] run_epoch_epochs del: epoch_loop.simps)
    moreover have "last (logger (epoch_loop T bsize tr va (e # es) s)) = Msg ''Early stopping...''"
      by (simp only: epoch_loop_break [OF True] run_epoch_stop_last [OF True])
    ultimately show ?thesis
      by (intro exI [of _ 1]) simp
  next
    case False
    obtain k where k: "k \<le> length es"
      "epochs_run (logger (epoch_loop T bsize tr va es (snd ?r))) = epochs_run (logger (snd ?r)) @ take k es"
      "k < length es \<longrightarrow> last (logger (epoch_loop T bsize tr va es (snd ?r))) = Msg ''Early stopping...''"
      using Cons.IH [of "snd ?r"] by blast
    show ?thesis
      using k by (intro exI [of _ "Suc k"])
        (simp add: epoch_loop_continue [OF False] run_epoch_epochs del: epoch_loop.simps)
  qed
qed

lemma start_log:
  "epochs_run (logger (train_model_start T self)) = []
   \<and> epochs_validated (logger (train_model_start T self)) = []
   \<and> early_stop_condition (train_model_start T self) =
       EarlyStopCondition_init (early_stop_patience_epochs (knobs self)) False"
  by (simp add: train_model_start_def Let_def)

lemma run_no_val:
  "epochs_run (logger (train_model_run T self tr [])) = [0..<nat (max_trial_epochs (knobs self))]
   \<and> epochs_validated (logger (train_model_run T self tr [])) = []
   \<and> early_stop_condition (train_model_run T self tr []) =
       EarlyStopCondition_init (early_stop_patience_epochs (knobs self)) False"
  unfolding train_model_run_def
  using epoch_loop_no_val [of T "batch_size (knobs self)" tr "[0..<nat (get_trial_epochs self)]"
      "train_model_start T self"] start_log [of T self]
  by (simp add: get_trial_epochs_def)

lemma run_prefix:
  "\<exists>k. k \<le> nat (max_trial_epochs (knobs self))
     \<and> epochs_run (logger (train_model_run T self tr va)) = [0..<k]
     \<and> (k < nat (max_trial_epochs (knobs self)) \<longrightarrow>
          last (logger (train_model_run T self tr va)) = Msg ''Early stopping...'')"
proof -
  let ?n = "nat (max_trial_epochs (knobs self))"
  obtain k where k: "k \<le> length [0..<?n]"
    "epochs_run (logger (train_model_run T self tr va))
       = epochs_run (logger (train_model_start T self)) @ take k [0..<?n]"
    "k < length [0..<?n] \<longrightarrow> last (logger (train_model_run T self tr va)) = Msg ''Early stopping...''"
    unfolding train_model_run_def get_trial_epochs_def
    using epoch_loop_prefix [of "[0..<?n]" T "batch_size (knobs self)" tr va "train_model_start T self"]
    by blast
  have "take k [0..<?n] = [0..<k]"
    using k(1) by (simp add: take_upt)
  then show ?thesis
    using k start_log [of T self] by (intro exI [of _ k]) simp
qed

text \<open>
  Claim C6. In the training loop the validation pass and the early-stop check are made
  in an epoch only when the train-val dataset is not empty: with an empty one an epoch
  is the train pass alone and never leaves the loop, so the run begins every epoch of
  \<open>range(trial_epochs)\<close>, validates none and never calls \<open>check\<close>. With a non-empty one
  the epoch leaves the loop exactly when \<open>check\<close>, called on the condition as it stood
  before the epoch with the validation running loss, returns true. When an epoch leaves
  the loop, the loop ends there, whatever epochs remain, and the early-stopping message
  is the last event logged. Any run begins the epochs \<open>0, ..., k - 1\<close> for some \<open>k\<close> up to
  the configured number, and when \<open>k\<close> is below it the run ended with the early stop.
\<close>

theorem validation_and_early_stop:
  "(epochs_run (logger (train_model_run T self tr [])) = [0..<nat (max_trial_epochs (knobs self))]
    \<and> epochs_validated (logger (train_model_run T self tr [])) = []
    \<and> early_stop_condition (train_model_run T self tr []) =
        EarlyStopCondition_init (early_stop_patience_epochs (knobs self)) False
    \<and> run_epoch T bsize tr [] e s = (False, train_pass T bsize tr e s))
   \<and> (va \<noteq> [] \<longrightarrow>
        EarlyStopCondition_check (early_stop_condition s)
          (snd (train_val_pass T bsize va e (train_pass T bsize tr e s)))
        = (fst (run_epoch T bsize tr va e s), early_stop_condition (snd (run_epoch T bsize tr va e s))))
   \<and> (fst (run_epoch T bsize tr va e s) \<longrightarrow>
        epoch_loop T bsize tr va (e # rest) s = snd (run_epoch T bsize tr va e s)
        \<and> last (logger (snd (run_epoch T bsize tr va e s))) = Msg ''Early stopping...'')
   \<and> (\<exists>k. k \<le> nat (max_trial_epochs (knobs self))
          \<and> epochs_run (logger (train_model_run T self tr va)) = [0..<k]
          \<and> (k < nat (max_trial_epochs (knobs self)) \<longrightarrow>
               last (logger (train_model_run T self tr va)) = Msg ''Early stopping...''))"
proof -
  have "va \<noteq> [] \<longrightarrow>
        EarlyStopCondition_check (early_stop_condition s)
          (snd (train_val_pass T bsize va e (train_pass T bsize tr e s)))
        = (fst (run_epoch T bsize tr va e s), early_stop_condition (snd (run_epoch T bsize tr va e s)))"
    using run_epoch_val(1,2) [of va T bsize tr e s] by (simp add: prod_eq_iff)
  moreover have "fst (run_epoch T bsize tr va e s) \<longrightarrow>
        epoch_loop T bsize tr va (e # rest) s = snd (run_epoch T bsize tr va e s)
        \<and> last (logger (snd (run_epoch T bsize tr va e s))) = Msg ''Early stopping...''"
    using epoch_loop_break [of T bsize tr va e s rest] run_epoch_stop_last [of T bsize tr va e s]
    by blast
  ultimately show ?thesis
    using run_no_val [of T self tr] run_epoch_no_val [of T bsize tr e s] run_prefix [of self T tr va]
    by blast
qed


lemmas example_eval =
  run_epoch_def train_pass_def train_val_pass_def example_torch_def example_state_def
  logger_log_def Let_def RunningAverage_init_def RunningAverage_add_def RunningAverage_get_def
  EarlyStopCondition_check_def EarlyStopCondition_init_def fgt_def float_of_nat_def
  round_double_eval

lemma example_epoch_stops:
  "run_epoch example_torch 2 [Fin 1] [Fin 2] 3 example_state =
     (True, \<lparr>cur_net = [], cur_step = 2, optimizer = (),
             early_stop_condition = \<lparr>patience = 1, if_max = False, last_best = Fin 2, wait_count = 1\<rparr>,
             logger = [RunningEpoch 3, TrainMetrics 3 2 (Fin 1) (Fin 1), TrainValMetrics 3 (Fin 2) (Fin 1),
                       NotImproved 1, Msg ''Early stopping...'']\<rparr>)"
  by (simp add: example_eval)

lemma example_run_stops:
  "epochs_run (logger (train_model_run example_torch example_self [Fin 1] [Fin 2])) = [0, 1]"
proof -
  have u: "[0..<5] = [0, 1, 2, 3, 4::nat]"
    by (simp add: upt_conv_Cons)
  show ?thesis
    by (simp add: train_model_run_def train_model_start_def get_trial_epochs_def
        example_self_def example_knobs_def u example_eval)
qed



lemma example_run_last:
  "last (logger (train_model_run example_torch example_self [Fin 1] [Fin 2])) = Msg ''Early stopping...''"
proof -
  have u: "[0..<5] = [0, 1, 2, 3, 4::nat]"
    by (simp add: upt_conv_Cons)
  show ?thesis
    by (simp add: train_model_run_def train_model_start_def get_trial_epochs_def
        example_self_def example_knobs_def u example_eval)
qed

theorem validation_and_early_stop_witness:
  "epochs_run (logger (train_model_run example_torch example_self [Fin 1] [])) = [0, 1, 2, 3, 4]
   \<and> epochs_validated (logger (train_model_run example_torch example_self [Fin 1] [])) = []
   \<and> [Fin 2] \<noteq> []
   \<and> EarlyStopCondition_check (early_stop_condition example_state)
        (snd (train_val_pass example_torch 2 [Fin 2] 3 (train_pass example_torch 2 [Fin 1] 3 example_state)))
       = (True, \<lparr>patience = 1, if_max = False, last_best = Fin 2, wait_count = 1\<rparr>)
   \<and> fst (run_epoch example_torch 2 [Fin 1] [Fin 2] 3 example_state)
   \<and> epoch_loop example_torch 2 [Fin 1] [Fin 2] [3, 4] example_state
       = snd (run_epoch example_torch 2 [Fin 1] [Fin 2] 3 example_state)
   \<and> last (logger (snd (run_epoch example_torch 2 [Fin 1] [Fin 2] 3 example_state))) = Msg ''Early stopping...''
   \<and> epochs_run (logger (train_model_run example_torch example_self [Fin 1] [Fin 2])) = [0, 1]
   \<and> last (logger (train_model_run example_torch example_self [Fin 1] [Fin 2])) = Msg ''Early stopping...''"
proof -
  note t = validation_and_early_stop [where T = example_torch and self = example_self
      and tr = "[Fin 1]" and va = "[Fin 2]" and bsize = 2 and e = 3 and s = example_state
      and rest = "[4]"]
  have n: "[0..<nat (max_trial_epochs (knobs example_self))] = [0, 1, 2, 3, 4]"
    by (simp add: example_self_def example_knobs_def upt_conv_Cons)
  have ne: "[Fin 2] \<noteq> []" by simp
  have stop: "fst (run_epoch example_torch 2 [Fin 1] [Fin 2] 3 example_state)"
    by (simp only: example_epoch_stops fst_conv)
  have esc: "early_stop_condition (snd (run_epoch example_torch 2 [Fin 1] [Fin 2] 3 example_state))
             = \<lparr>patience = 1, if_max = False, last_best = Fin 2, wait_count = 1\<rparr>"
    by (simp add: example_epoch_stops)
  from t have a: "epochs_run (logger (train_model_run example_torch example_self [Fin 1] []))
                  = [0..<nat (max_trial_epochs (knobs example_self))]"
    and b: "epochs_validated (logger (train_model_run example_torch example_self [Fin 1] [])) = []"
    by blast+
  from t ne have c: "EarlyStopCondition_check (early_stop_condition example_state)
        (snd (train_val_pass example_torch 2 [Fin 2] 3 (train_pass example_torch 2 [Fin 1] 3 example_state)))
       = (fst (run_epoch example_torch 2 [Fin 1] [Fin 2] 3 example_state),
          early_stop_condition (snd (run_epoch example_torch 2 [Fin 1] [Fin 2] 3 example_state)))"
    by blast
  from t stop have d: "epoch_loop example_torch 2 [Fin 1] [Fin 2] [3, 4] example_state
       = snd (run_epoch example_torch 2 [Fin 1] [Fin 2] 3 example_state)"
    and e: "last (logger (snd (run_epoch example_torch 2 [Fin 1] [Fin 2] 3 example_state))) = Msg ''Early stopping...''"
    by blast+
  have c': "EarlyStopCondition_check (early_stop_condition example_state)
        (snd (train_val_pass example_torch 2 [Fin 2] 3 (train_pass example_torch 2 [Fin 1] 3 example_state)))
       = (True, \<lparr>patience = 1, if_max = False, last_best = Fin 2, wait_count = 1\<rparr>)"
    using c stop by (simp only: esc simp_thms)
  show ?thesis
    using a b ne c' stop d e example_run_stops example_run_last
    by (simp only: n simp_thms)
qed

end
